theory Spec2Isabelle
  imports Complex_Main "HOL-Library.AList"
begin

section \<open>Errors and arrays\<close>

text \<open>
  Every exception the source's own statements can raise is a constructor; an exception
  raised inside a library the source calls is \<open>External\<close>. A call that raises is
  \<open>Inl\<close> of the exception, and the state it had reached is not kept: the properties
  below are about calls that return.
\<close>

datatype error =
    AssertionError string
  | IndexError
  | ValueError
  | ZeroDivisionError
  | AttributeError
  | UnboundLocalError
  | External string

text \<open>
  A numpy array is its dtype name and the list of its entries along the leading axis
  (\<open>arr.shape[0]\<close> is the length of that list). What an entry is (a number, a row,
  a matrix) is left open.
\<close>

record 'a ndarray =
  dtype :: string
  rows :: "'a list"

definition shape0 :: "'a ndarray \<Rightarrow> int" where
  "shape0 arr = int (length (rows arr))"

text \<open>\<open>sub in s\<close> on Python strings.\<close>

fun contains :: "string \<Rightarrow> string \<Rightarrow> bool" where
  "contains sub [] = (sub = [])"
| "contains sub (c # cs) = (take (length sub) (c # cs) = sub \<or> contains sub cs)"

text \<open>
  \<open>arr.astype(t)\<close> converts entry by entry; the conversion of one entry to the dtype
  \<open>t\<close> is numpy's and is the parameter \<open>cast\<close>.
\<close>

definition astype :: "(string \<Rightarrow> 'a \<Rightarrow> 'a) \<Rightarrow> string \<Rightarrow> 'a ndarray \<Rightarrow> 'a ndarray" where
  "astype cast t arr = \<lparr>dtype = t, rows = map (cast t) (rows arr)\<rparr>"

definition to_32 :: "(string \<Rightarrow> 'a \<Rightarrow> 'a) \<Rightarrow> 'a ndarray \<Rightarrow> 'a ndarray" where
  "to_32 cast arr =
     (if contains ''int'' (dtype arr) then astype cast ''int64'' arr
      else astype cast ''float32'' arr)"

text \<open>
  Python's slice \<open>xs[lo:hi]\<close> with integer bounds: a negative bound counts from the
  end, and both bounds are clamped to the list.
\<close>

definition slice_bound :: "int \<Rightarrow> int \<Rightarrow> int" where
  "slice_bound len k = (if k < 0 then max 0 (len + k) else min len k)"

definition py_slice :: "'a list \<Rightarrow> int \<Rightarrow> int \<Rightarrow> 'a list" where
  "py_slice xs lo hi =
     (let len = int (length xs); a = slice_bound len lo; b = slice_bound len hi
      in take (nat (b - a)) (drop (nat a) xs))"

definition slice_arr :: "'a ndarray \<Rightarrow> int \<Rightarrow> int \<Rightarrow> 'a ndarray" where
  "slice_arr arr lo hi = arr\<lparr>rows := py_slice (rows arr) lo hi\<rparr>"

text \<open>
  \<open>range(i, stop, step)\<close> as the list of the values its iterator produces; a zero
  step is refused by the caller (\<open>ValueError\<close>) before this is reached.
\<close>

function py_range :: "int \<Rightarrow> int \<Rightarrow> int \<Rightarrow> int list" where
  "py_range i stop step =
     (if 0 < step \<and> i < stop then i # py_range (i + step) stop step
      else if step < 0 \<and> stop < i then i # py_range (i + step) stop step
      else [])"
  by pat_completeness auto
termination
  by (relation "measure (\<lambda>(i, stop, step). nat (if 0 < step then stop - i else i - stop))") auto

declare py_range.simps [simp del]

text \<open>
  A torch \<open>Variable\<close> wrapping a tensor built from a numpy array: the array, and
  whether \<open>.cuda()\<close> has moved it to the device.
\<close>

record 'a variable =
  tensor :: "'a ndarray"
  is_cuda :: bool

definition Variable :: "'a ndarray \<Rightarrow> 'a variable" where
  "Variable arr = \<lparr>tensor = arr, is_cuda = False\<rparr>"

definition to_cuda :: "'a variable \<Rightarrow> 'a variable" where
  "to_cuda v = v\<lparr>is_cuda := True\<rparr>"

section \<open>The batcher: chunks and chunk_shuffle\<close>

text \<open>
  Both functions are Python generators: calling one runs none of its body and returns a
  generator object; each request for the next item (\<open>resume\<close>) runs the body up to
  the next \<open>yield\<close>. A generator is \<open>Created\<close> (body not entered: it holds the
  arguments), \<open>Suspended\<close> at the \<open>yield\<close> inside the loop (it holds the indices the
  range has still to produce) or \<open>Finished\<close>.
\<close>

datatype gen_body = ChunksBody bool | ChunkShuffleBody

datatype 'a generator =
    Created gen_body int "'a ndarray list"
  | Suspended gen_body "int list" int "'a ndarray list"
  | Finished

definition chunks :: "int \<Rightarrow> 'a ndarray list \<Rightarrow> bool \<Rightarrow> 'a generator" where
  "chunks batchsize arrs cuda = Created (ChunksBody cuda) batchsize arrs"

definition chunk_shuffle :: "int \<Rightarrow> 'a ndarray list \<Rightarrow> 'a generator" where
  "chunk_shuffle batchsize arrs = Created ChunkShuffleBody batchsize arrs"

text \<open>The value yielded at index \<open>i\<close>.\<close>

fun yielded :: "(string \<Rightarrow> 'a \<Rightarrow> 'a) \<Rightarrow> gen_body \<Rightarrow> int \<Rightarrow> int \<Rightarrow> 'a ndarray list
    \<Rightarrow> 'a variable list" where
  "yielded cast (ChunksBody cuda) i n arrs =
     (let var = map (\<lambda>arr. Variable (to_32 cast (slice_arr arr i (i + n)))) arrs
      in if cuda then map to_cuda var else var)"
| "yielded cast ChunkShuffleBody i n arrs =
     map (\<lambda>arr. Variable (slice_arr arr i (i + n))) arrs"

fun loop_step :: "(string \<Rightarrow> 'a \<Rightarrow> 'a) \<Rightarrow> gen_body \<Rightarrow> int list \<Rightarrow> int \<Rightarrow> 'a ndarray list
    \<Rightarrow> error + ('a variable list \<times> 'a generator) option" where
  "loop_step cast body [] n arrs = Inr None"
| "loop_step cast body (i # rest) n arrs =
     Inr (Some (yielded cast body i n arrs, Suspended body rest n arrs))"

text \<open>
  \<open>resume\<close> is \<open>next(gen)\<close>: \<open>Inl e\<close> when the body raises \<open>e\<close>, \<open>Inr None\<close> when it
  returns (StopIteration), \<open>Inr (Some (batch, gen'))\<close> when it yields. Entering the
  body computes \<open>lens\<close>, reads \<open>lens[0]\<close>, checks the assertion and builds the range.
\<close>

fun resume :: "(string \<Rightarrow> 'a \<Rightarrow> 'a) \<Rightarrow> 'a generator
    \<Rightarrow> error + ('a variable list \<times> 'a generator) option" where
  "resume cast (Created body n arrs) =
     (let lens = map shape0 arrs in
      case lens of
        [] \<Rightarrow> Inl IndexError
      | len # _ \<Rightarrow>
          if \<not> list_all (\<lambda>l. len = l) lens
          then Inl (AssertionError ''Not all arrays are of same shape'')
          else if n = 0 then Inl ValueError
          else loop_step cast body (py_range 0 len n) n arrs)"
| "resume cast (Suspended body is n arrs) = loop_step cast body is n arrs"
| "resume cast Finished = Inr None"

text \<open>The number of items a generator can still yield bounds every loop over it.\<close>

fun pending :: "'a generator \<Rightarrow> nat" where
  "pending (Created body n arrs) =
     (case arrs of [] \<Rightarrow> 0 | a # _ \<Rightarrow> Suc (length (py_range 0 (shape0 a) n)))"
| "pending (Suspended body is n arrs) = length is"
| "pending Finished = 0"

lemma loop_step_pending:
  "loop_step cast body is n arrs = Inr (Some (b, g)) \<Longrightarrow> pending g < length is"
  by (cases "is") auto

lemma resume_pending: "resume cast g = Inr (Some (b, g')) \<Longrightarrow> pending g' < pending g"
proof (cases g)
  case (Created body n arrs)
  assume r: "resume cast g = Inr (Some (b, g'))"
  show ?thesis
  proof (cases arrs)
    case Nil
    with r Created show ?thesis by simp
  next
    case (Cons a as)
    with r Created have "loop_step cast body (py_range 0 (shape0 a) n) n arrs = Inr (Some (b, g'))"
      by (simp split: if_splits)
    from loop_step_pending [OF this] Created Cons show ?thesis by simp
  qed
next
  case (Suspended body "is" n arrs)
  assume "resume cast g = Inr (Some (b, g'))"
  with Suspended loop_step_pending [of cast body "is" n arrs b g'] show ?thesis by simp
next
  case Finished
  assume "resume cast g = Inr (Some (b, g'))"
  with Finished show ?thesis by simp
qed

text \<open>
  \<open>for batch in gen: body\<close>, with the loop's variables as the state \<open>s\<close>: an
  exception of the generator or of the body ends the loop.
\<close>

function for_each :: "(string \<Rightarrow> 'a \<Rightarrow> 'a) \<Rightarrow> 'a generator
    \<Rightarrow> ('a variable list \<Rightarrow> 's \<Rightarrow> error + 's) \<Rightarrow> 's \<Rightarrow> error + 's" where
  "for_each cast g body s =
     (case resume cast g of
        Inl e \<Rightarrow> Inl e
      | Inr None \<Rightarrow> Inr s
      | Inr (Some (batch, g')) \<Rightarrow>
          (case body batch s of
             Inl e \<Rightarrow> Inl e
           | Inr s' \<Rightarrow> for_each cast g' body s'))"
  by pat_completeness auto
termination
  by (relation "measure (\<lambda>(cast, g, body, s). pending g)") (auto dest: resume_pending)

declare for_each.simps [simp del]

text \<open>\<open>list(gen)\<close>: every batch the generator yields, in order.\<close>

function drain :: "(string \<Rightarrow> 'a \<Rightarrow> 'a) \<Rightarrow> 'a generator \<Rightarrow> error + 'a variable list list" where
  "drain cast g =
     (case resume cast g of
        Inl e \<Rightarrow> Inl e
      | Inr None \<Rightarrow> Inr []
      | Inr (Some (batch, g')) \<Rightarrow>
          (case drain cast g' of Inl e \<Rightarrow> Inl e | Inr bs \<Rightarrow> Inr (batch # bs)))"
  by pat_completeness auto
termination
  by (relation "measure (\<lambda>(cast, g). pending g)") (auto dest: resume_pending)

declare drain.simps [simp del]

text \<open>The loop body run over a list of batches, stopping at the first exception.\<close>

fun run_all :: "('b \<Rightarrow> 's \<Rightarrow> error + 's) \<Rightarrow> 'b list \<Rightarrow> 's \<Rightarrow> error + 's" where
  "run_all body [] s = Inr s"
| "run_all body (b # bs) s =
     (case body b s of Inl e \<Rightarrow> Inl e | Inr s' \<Rightarrow> run_all body bs s')"

section \<open>The Trainer\<close>

subsection \<open>State\<close>

text \<open>
  A value stored in a log record: the counters are Python ints, \<open>train\<close> is a bool,
  times and losses are floats (read here as reals), and a callback may return anything.
\<close>

datatype 'v pyval = PyInt int | PyBool bool | PyFloat real | PyObj 'v

type_synonym 'v log_record = "(string \<times> 'v pyval) list"

text \<open>
  The fields of a \<open>Trainer\<close> other than \<open>model\<close> and \<open>optimizer\<close>. A dict is an
  association list with distinct keys. A callback receives the batch, the model and the
  prediction; \<open>'m\<close> is what it can read of the model. \<open>clip = None\<close> is Python's
  \<open>None\<close>.
\<close>

record ('a, 'm, 'pr, 'v) trainer =
  callbacks :: "(string \<times> ('a variable list \<Rightarrow> 'm \<Rightarrow> 'pr \<Rightarrow> 'v)) list"
  previous_log :: "'v log_record list"
  log' :: "'v log_record list"
  epoch :: int
  iteration :: int
  seed :: int
  print_every :: int
  batchsize :: int
  window :: int
  clip :: "real option"
  cuda :: bool
  backward_kwargs :: "(string \<times> bool) list"
  grad_norm :: bool

text \<open>
  Every call the Trainer makes on an object it does not own is recorded, in order.
\<close>

datatype ('a, 'pr) event =
    Train bool
  | ZeroGrad
  | Forward "'a variable list"
  | Loss 'pr "'a variable list"
  | Backward
  | ClipGradNorm real
  | Step
  | Shuffle int
  | PrintLog bool

text \<open>
  What the Trainer acts on: the model (its mode flag, its parameters and their
  gradients), the optimizer's own state, the process's globals (the \<open>random\<close> module's
  generator and the clock) and the record of the calls made so far.
\<close>

record ('a, 'p, 'g, 'o, 'x, 'pr) world =
  training :: bool
  params :: 'p
  grads :: 'g
  opt_state :: 'o
  outside :: 'x
  calls :: "('a, 'pr) event list"

text \<open>
  The code the Trainer calls and does not contain: numpy's conversion, the model's
  \<open>forward\<close> and \<open>loss\<close>, torch's addition, \<open>backward\<close>, \<open>clip_grad_norm\<close> and
  indexing, the optimizer, sklearn's \<open>shuffle\<close>, \<open>random.randint\<close> and \<open>time.time\<close>.
  Each is a parameter, typed by what it reads and what it writes: \<open>forward\<close>, \<open>loss\<close>
  and the callbacks write nothing, \<open>backward\<close>, \<open>clip_grad_norm\<close> and \<open>zero_grad\<close>
  write the gradients, \<open>step\<close> writes the optimizer's state and the parameters.

  \<open>terms l\<close> are the items that iterating over a loss value produces and \<open>py_sum\<close>
  is Python's \<open>sum\<close> of a non-empty list of them; \<open>item\<close> is \<open>l.data[0]\<close>.
  \<open>grad_abs_max\<close> lists \<open>p.grad.data.abs().max()\<close> over the parameters whose
  gradient is not \<open>None\<close>. \<open>shuffle rs arrs\<close> is what
  \<open>shuffle(*arrs, random_state=rs)\<close> returns, as the sequence that \<open>*args\<close> then
  unpacks. \<open>max_of v\<close> is \<open>v.max()\<close> and \<open>column v k\<close> is \<open>v[:, k]\<close>.
\<close>

record ('a, 'p, 'g, 'o, 'x, 'pr, 'l) collab =
  cast :: "string \<Rightarrow> 'a \<Rightarrow> 'a"
  forward :: "bool \<Rightarrow> 'p \<Rightarrow> 'a variable list \<Rightarrow> 'pr"
  loss :: "bool \<Rightarrow> 'p \<Rightarrow> 'pr \<Rightarrow> 'a variable list \<Rightarrow> 'l"
  terms :: "'l \<Rightarrow> 'l list"
  py_sum :: "'l list \<Rightarrow> 'l"
  item :: "'l \<Rightarrow> real"
  backward :: "(string \<times> bool) list \<Rightarrow> 'l \<Rightarrow> 'p \<Rightarrow> 'g \<Rightarrow> 'g"
  clip_grad_norm :: "real \<Rightarrow> 'p \<Rightarrow> 'g \<Rightarrow> 'g"
  zero_grad :: "'g \<Rightarrow> 'g"
  step :: "'o \<Rightarrow> 'p \<Rightarrow> 'g \<Rightarrow> 'o \<times> 'p"
  grad_abs_max :: "'p \<Rightarrow> 'g \<Rightarrow> real list"
  shuffle :: "int \<Rightarrow> 'a ndarray list \<Rightarrow> error + 'a ndarray list"
  randint :: "int \<Rightarrow> int \<Rightarrow> 'x \<Rightarrow> int \<times> 'x"
  time_time :: "'x \<Rightarrow> real \<times> 'x"
  max_of :: "'a variable \<Rightarrow> int"
  column :: "'a variable \<Rightarrow> int \<Rightarrow> 'a variable"

text \<open>
  \<open>__init__\<close>, with its defaults for the arguments a caller leaves out. The model and
  the optimizer it is given are the \<open>world\<close>'s; moving the model to the device when
  \<open>cuda\<close> is set changes nothing that is modelled here.
\<close>

definition Trainer :: "(string \<times> ('a variable list \<Rightarrow> 'm \<Rightarrow> 'pr \<Rightarrow> 'v)) list \<Rightarrow> int \<Rightarrow> bool \<Rightarrow> int
    \<Rightarrow> int \<Rightarrow> int \<Rightarrow> real option \<Rightarrow> bool \<Rightarrow> (string \<times> bool) list \<Rightarrow> ('a, 'm, 'pr, 'v) trainer" where
  "Trainer cbs sd cu pe bs win cl gn bkw =
     \<lparr>callbacks = cbs, previous_log = [], log' = [], epoch = 0, iteration = 0, seed = sd,
      print_every = pe, batchsize = bs, window = win, clip = cl, cuda = cu,
      backward_kwargs = bkw, grad_norm = gn\<rparr>"

definition Trainer_default :: "(string \<times> ('a variable list \<Rightarrow> 'm \<Rightarrow> 'pr \<Rightarrow> 'v)) list
    \<Rightarrow> ('a, 'm, 'pr, 'v) trainer" where
  "Trainer_default cbs = Trainer cbs 42 False 25 2048 500 None False []"

subsection \<open>Calls on the model, the optimizer and the globals\<close>

definition record_call :: "('a, 'pr) event \<Rightarrow> ('a, 'p, 'g, 'o, 'x, 'pr) world
    \<Rightarrow> ('a, 'p, 'g, 'o, 'x, 'pr) world" where
  "record_call e w = w\<lparr>calls := calls w @ [e]\<rparr>"

definition model_train :: "bool \<Rightarrow> ('a, 'p, 'g, 'o, 'x, 'pr) world \<Rightarrow> ('a, 'p, 'g, 'o, 'x, 'pr) world" where
  "model_train flag w = record_call (Train flag) (w\<lparr>training := flag\<rparr>)"

definition optimizer_zero_grad :: "('a, 'p, 'g, 'o, 'x, 'pr, 'l) collab
    \<Rightarrow> ('a, 'p, 'g, 'o, 'x, 'pr) world \<Rightarrow> ('a, 'p, 'g, 'o, 'x, 'pr) world" where
  "optimizer_zero_grad c w = record_call ZeroGrad (w\<lparr>grads := zero_grad c (grads w)\<rparr>)"

definition model_forward :: "('a, 'p, 'g, 'o, 'x, 'pr, 'l) collab \<Rightarrow> 'a variable list
    \<Rightarrow> ('a, 'p, 'g, 'o, 'x, 'pr) world \<Rightarrow> 'pr \<times> ('a, 'p, 'g, 'o, 'x, 'pr) world" where
  "model_forward c xs w = (forward c (training w) (params w) xs, record_call (Forward xs) w)"

definition model_loss :: "('a, 'p, 'g, 'o, 'x, 'pr, 'l) collab \<Rightarrow> 'pr \<Rightarrow> 'a variable list
    \<Rightarrow> ('a, 'p, 'g, 'o, 'x, 'pr) world \<Rightarrow> 'l \<times> ('a, 'p, 'g, 'o, 'x, 'pr) world" where
  "model_loss c pred ys w =
     (loss c (training w) (params w) pred ys, record_call (Loss pred ys) w)"

definition call_backward :: "('a, 'p, 'g, 'o, 'x, 'pr, 'l) collab \<Rightarrow> (string \<times> bool) list \<Rightarrow> 'l
    \<Rightarrow> ('a, 'p, 'g, 'o, 'x, 'pr) world \<Rightarrow> ('a, 'p, 'g, 'o, 'x, 'pr) world" where
  "call_backward c kwargs scalar w =
     record_call Backward (w\<lparr>grads := backward c kwargs scalar (params w) (grads w)\<rparr>)"

definition call_clip_grad_norm :: "('a, 'p, 'g, 'o, 'x, 'pr, 'l) collab \<Rightarrow> real
    \<Rightarrow> ('a, 'p, 'g, 'o, 'x, 'pr) world \<Rightarrow> ('a, 'p, 'g, 'o, 'x, 'pr) world" where
  "call_clip_grad_norm c max_norm w =
     record_call (ClipGradNorm max_norm)
       (w\<lparr>grads := clip_grad_norm c max_norm (params w) (grads w)\<rparr>)"

definition optimizer_step :: "('a, 'p, 'g, 'o, 'x, 'pr, 'l) collab
    \<Rightarrow> ('a, 'p, 'g, 'o, 'x, 'pr) world \<Rightarrow> ('a, 'p, 'g, 'o, 'x, 'pr) world" where
  "optimizer_step c w =
     (let (os, ps) = step c (opt_state w) (params w) (grads w)
      in record_call Step (w\<lparr>opt_state := os, params := ps\<rparr>))"

definition call_time :: "('a, 'p, 'g, 'o, 'x, 'pr, 'l) collab
    \<Rightarrow> ('a, 'p, 'g, 'o, 'x, 'pr) world \<Rightarrow> real \<times> ('a, 'p, 'g, 'o, 'x, 'pr) world" where
  "call_time c w = (let (now, x) = time_time c (outside w) in (now, w\<lparr>outside := x\<rparr>))"

text \<open>
  \<open>if self.clip:\<close> is Python's truth test: \<open>None\<close> and a zero threshold are both
  false.
\<close>

definition truthy :: "real option \<Rightarrow> bool" where
  "truthy cl = (case cl of None \<Rightarrow> False | Some th \<Rightarrow> th \<noteq> 0)"

definition clip_if_set :: "('a, 'p, 'g, 'o, 'x, 'pr, 'l) collab \<Rightarrow> real option
    \<Rightarrow> ('a, 'p, 'g, 'o, 'x, 'pr) world \<Rightarrow> ('a, 'p, 'g, 'o, 'x, 'pr) world" where
  "clip_if_set c cl w = (if truthy cl then call_clip_grad_norm c (the cl) w else w)"

subsection \<open>run_callbacks and print_log\<close>

text \<open>
  \<open>run_callbacks(batch, pred, **kwargs)\<close>: the dict of the callbacks' results, then
  the three tags, then \<open>vals.update(kwargs)\<close>; the record is appended to \<open>self.log\<close>.
\<close>

definition run_callbacks :: "('a, 'p, 'g, 'o, 'x, 'pr, 'l) collab \<Rightarrow> 'a variable list \<Rightarrow> 'pr
    \<Rightarrow> (string \<times> 'v pyval) list
    \<Rightarrow> ('a, ('a, 'p, 'g, 'o, 'x, 'pr) world, 'pr, 'v) trainer \<times> ('a, 'p, 'g, 'o, 'x, 'pr) world
    \<Rightarrow> ('a, ('a, 'p, 'g, 'o, 'x, 'pr) world, 'pr, 'v) trainer \<times> ('a, 'p, 'g, 'o, 'x, 'pr) world" where
  "run_callbacks c batch pred kwargs = (\<lambda>(t, w).
     let vals = fold (\<lambda>(name, cb). AList.update name (PyObj (cb batch w pred))) (callbacks t) [];
         (now, w1) = call_time c w;
         vals = AList.update ''timestamp'' (PyFloat now) vals;
         vals = AList.update ''epoch'' (PyInt (epoch t)) vals;
         vals = AList.update ''iteration'' (PyInt (iteration t)) vals;
         vals = fold (\<lambda>(k, v). AList.update k v) kwargs vals
     in (t\<lparr>log' := log' t @ [vals]\<rparr>, w1))"

text \<open>
  \<open>print_log\<close> changes nothing of the Trainer: it prints one line, whose text is
  pandas' rendering of the log and is not modelled.
\<close>

definition print_log :: "bool \<Rightarrow> ('a, 'p, 'g, 'o, 'x, 'pr) world \<Rightarrow> ('a, 'p, 'g, 'o, 'x, 'pr) world" where
  "print_log header w = record_call (PrintLog header) w"

text \<open>
  The three lines that end the loop body of every pass:
  \<^verbatim>\<open>
  if self._iteration % self.print_every == 0:
      self.print_log(header=self._iteration == 0)
  self._iteration += 1
  \<close>
  Python's \<open>%\<close> raises on a zero divisor and otherwise takes the divisor's sign, as
  \<open>mod\<close> on \<open>int\<close> does.
\<close>

definition end_of_iteration ::
  "('a, 'm, 'pr, 'v) trainer \<times> ('a, 'p, 'g, 'o, 'x, 'pr) world
    \<Rightarrow> error + ('a, 'm, 'pr, 'v) trainer \<times> ('a, 'p, 'g, 'o, 'x, 'pr) world" where
  "end_of_iteration = (\<lambda>(t, w).
     if print_every t = 0 then Inl ZeroDivisionError
     else Inr (t\<lparr>iteration := iteration t + 1\<rparr>,
               if iteration t mod print_every t = 0 then print_log (iteration t = 0) w else w))"

text \<open>The lines that end \<open>fit\<close> and \<open>fit_sequence\<close>, and the two that \<open>test\<close> shares.\<close>

definition flush_log :: "('a, 'm, 'pr, 'v) trainer \<Rightarrow> ('a, 'm, 'pr, 'v) trainer" where
  "flush_log t = t\<lparr>previous_log := previous_log t @ log' t, log' := []\<rparr>"

subsection \<open>fit\<close>

text \<open>\<open>str(i)\<close> for the index in the key \<open>loss_i\<close>.\<close>

fun str_nat :: "nat \<Rightarrow> string" where
  "str_nat n =
     (if n < 10 then [char_of (48 + n)]
      else str_nat (n div 10) @ [char_of (48 + n mod 10)])"

declare str_nat.simps [simp del]

text \<open>
  The keyword arguments \<open>fit\<close> passes on: one \<open>loss_i\<close> per loss term and, when
  \<open>grad_norm\<close> is set, the largest entry of \<open>grad_abs_max\<close> (\<open>max\<close> of an empty
  sequence raises \<open>ValueError\<close>).
\<close>

definition fit_kwargs :: "('a, 'p, 'g, 'o, 'x, 'pr, 'l) collab \<Rightarrow> bool \<Rightarrow> 'l list
    \<Rightarrow> ('a, 'p, 'g, 'o, 'x, 'pr) world \<Rightarrow> error + (string \<times> 'v pyval) list" where
  "fit_kwargs c gn ls w =
     (let kwargs = map (\<lambda>(i, l). (''loss_'' @ str_nat i, PyFloat (item c l))) (enumerate 0 ls)
      in if gn then
           (case grad_abs_max c (params w) (grads w) of
              [] \<Rightarrow> Inl ValueError
            | m # ms \<Rightarrow> Inr (AList.update ''grad_norm_max'' (PyFloat (foldl max m ms)) kwargs))
         else Inr kwargs)"

text \<open>
  The body of the loop of \<open>fit\<close>. \<open>sum(loss)\<close> of no terms is the int \<open>0\<close>, which has
  no \<open>backward\<close>.
\<close>

definition fit_batch :: "('a, 'p, 'g, 'o, 'x, 'pr, 'l) collab \<Rightarrow> 'a variable list
    \<Rightarrow> ('a, ('a, 'p, 'g, 'o, 'x, 'pr) world, 'pr, 'v) trainer \<times> ('a, 'p, 'g, 'o, 'x, 'pr) world
    \<Rightarrow> error + ('a, ('a, 'p, 'g, 'o, 'x, 'pr) world, 'pr, 'v) trainer \<times> ('a, 'p, 'g, 'o, 'x, 'pr) world" where
  "fit_batch c batch = (\<lambda>(t, w).
     let (start, w) = call_time c w;
         w = optimizer_zero_grad c w;
         (pred, w) = model_forward c batch w;
         (l, w) = model_loss c pred batch w
     in case terms c l of
          [] \<Rightarrow> Inl AttributeError
        | l0 # ls \<Rightarrow>
            let scalar = py_sum c (l0 # ls);
                w = call_backward c (backward_kwargs t) scalar w;
                w = clip_if_set c (clip t) w;
                w = optimizer_step c w;
                (stop, w) = call_time c w
            in case fit_kwargs c (grad_norm t) (l0 # ls) w of
                 Inl e \<Rightarrow> Inl e
               | Inr kwargs \<Rightarrow>
                   end_of_iteration
                     (run_callbacks c batch pred
                        ([(''train'', PyBool True), (''iter_time'', PyFloat (stop - start))] @ kwargs)
                        (t, w)))"

text \<open>
  \<open>fit(*args)\<close>. The seed of the permutation is drawn from the global generator; the
  field \<open>seed\<close> is not read.
\<close>

definition fit :: "('a, 'p, 'g, 'o, 'x, 'pr, 'l) collab \<Rightarrow> 'a ndarray list
    \<Rightarrow> ('a, ('a, 'p, 'g, 'o, 'x, 'pr) world, 'pr, 'v) trainer \<times> ('a, 'p, 'g, 'o, 'x, 'pr) world
    \<Rightarrow> error + ('a, ('a, 'p, 'g, 'o, 'x, 'pr) world, 'pr, 'v) trainer \<times> ('a, 'p, 'g, 'o, 'x, 'pr) world" where
  "fit c args = (\<lambda>(t, w).
     let w = model_train True w;
         t = t\<lparr>iteration := 0\<rparr>;
         (rs, x) = randint c 0 100000 (outside w);
         w = record_call (Shuffle rs) (w\<lparr>outside := x\<rparr>)
     in case shuffle c rs args of
          Inl e \<Rightarrow> Inl e
        | Inr args' \<Rightarrow>
            (case for_each (cast c) (chunks (batchsize t) args' (cuda t)) (fit_batch c) (t, w) of
               Inl e \<Rightarrow> Inl e
             | Inr (t, w) \<Rightarrow>
                 Inr (flush_log (t\<lparr>epoch := epoch t + 1\<rparr>), model_train False w)))"

subsection \<open>fit_sequence\<close>

text \<open>
  One time step. The four names it binds are locals of \<open>fit_sequence\<close>: they keep
  their values after the loop over the frames, and from one batch to the next.
\<close>

type_synonym ('a, 'pr, 'l) frame_locals = "('a variable \<times> 'a variable \<times> 'pr \<times> 'l) option"

definition frame_step :: "('a, 'p, 'g, 'o, 'x, 'pr, 'l) collab \<Rightarrow> real option \<Rightarrow> 'a variable
    \<Rightarrow> 'a variable \<Rightarrow> int \<Rightarrow> ('a, 'p, 'g, 'o, 'x, 'pr) world \<times> ('a, 'pr, 'l) frame_locals
    \<Rightarrow> ('a, 'p, 'g, 'o, 'x, 'pr) world \<times> ('a, 'pr, 'l) frame_locals" where
  "frame_step c cl inp label frame = (\<lambda>(w, locals).
     let w = optimizer_zero_grad c w;
         input_frame = column c inp frame;
         label_frame = column c label frame;
         (pred_frame, w) = model_forward c [input_frame] w;
         (l, w) = model_loss c pred_frame [label_frame] w;
         w = call_backward c [] l w;
         w = clip_if_set c cl w;
         w = optimizer_step c w
     in (w, Some (input_frame, label_frame, pred_frame, l)))"

text \<open>
  The body of the outer loop: the batch is unpacked into three names; a batch with no
  frame leaves the locals as they were, and reading an unbound one raises.
\<close>

definition fit_sequence_batch :: "('a, 'p, 'g, 'o, 'x, 'pr, 'l) collab \<Rightarrow> 'a variable list
    \<Rightarrow> (('a, ('a, 'p, 'g, 'o, 'x, 'pr) world, 'pr, 'v) trainer \<times> ('a, 'p, 'g, 'o, 'x, 'pr) world)
        \<times> ('a, 'pr, 'l) frame_locals
    \<Rightarrow> error + (('a, ('a, 'p, 'g, 'o, 'x, 'pr) world, 'pr, 'v) trainer \<times> ('a, 'p, 'g, 'o, 'x, 'pr) world)
        \<times> ('a, 'pr, 'l) frame_locals" where
  "fit_sequence_batch c batch = (\<lambda>((t, w), locals).
     case batch of
       [inp, label, lengths] \<Rightarrow>
         let (start, w) = call_time c w;
             (w, locals) = fold (frame_step c (clip t) inp label)
                             (py_range 0 (max_of c lengths) 1) (w, locals);
             (stop, w) = call_time c w
         in (case locals of
               None \<Rightarrow> Inl UnboundLocalError
             | Some (input_frame, label_frame, pred_frame, l) \<Rightarrow>
                 (case end_of_iteration
                         (run_callbacks c [input_frame, label_frame] pred_frame
                            [(''loss'', PyFloat (item c l)), (''train'', PyBool True),
                             (''iter_time'', PyFloat (stop - start))]
                            (t, w)) of
                    Inl e \<Rightarrow> Inl e
                  | Inr s \<Rightarrow> Inr (s, locals)))
     | _ \<Rightarrow> Inl ValueError)"

definition fit_sequence :: "('a, 'p, 'g, 'o, 'x, 'pr, 'l) collab \<Rightarrow> 'a ndarray \<Rightarrow> 'a ndarray
    \<Rightarrow> 'a ndarray
    \<Rightarrow> ('a, ('a, 'p, 'g, 'o, 'x, 'pr) world, 'pr, 'v) trainer \<times> ('a, 'p, 'g, 'o, 'x, 'pr) world
    \<Rightarrow> error + ('a, ('a, 'p, 'g, 'o, 'x, 'pr) world, 'pr, 'v) trainer \<times> ('a, 'p, 'g, 'o, 'x, 'pr) world" where
  "fit_sequence c inputs labels lengths = (\<lambda>(t, w).
     case for_each (cast c) (chunk_shuffle (batchsize t) [inputs, labels, lengths])
            (fit_sequence_batch c) ((t, w), None) of
       Inl e \<Rightarrow> Inl e
     | Inr ((t, w), locals) \<Rightarrow> Inr (flush_log (t\<lparr>epoch := epoch t + 1\<rparr>), w))"

subsection \<open>test\<close>

definition test_batch :: "('a, 'p, 'g, 'o, 'x, 'pr, 'l) collab \<Rightarrow> 'a variable list
    \<Rightarrow> ('a, ('a, 'p, 'g, 'o, 'x, 'pr) world, 'pr, 'v) trainer \<times> ('a, 'p, 'g, 'o, 'x, 'pr) world
    \<Rightarrow> error + ('a, ('a, 'p, 'g, 'o, 'x, 'pr) world, 'pr, 'v) trainer \<times> ('a, 'p, 'g, 'o, 'x, 'pr) world" where
  "test_batch c batch = (\<lambda>(t, w).
     if batch = [] then Inl IndexError
     else
       let target = last batch;
           (pred, w) = model_forward c (butlast batch) w;
           (l, w) = model_loss c pred [target] w
       in case terms c l of
            [] \<Rightarrow> Inl AttributeError
          | l0 # ls \<Rightarrow>
              let scalar = py_sum c (l0 # ls);
                  w = call_backward c [] scalar w
              in end_of_iteration
                   (run_callbacks c batch pred
                      [(''train'', PyBool False), (''loss'', PyFloat (item c scalar))] (t, w)))"

definition test :: "('a, 'p, 'g, 'o, 'x, 'pr, 'l) collab \<Rightarrow> 'a ndarray list
    \<Rightarrow> ('a, ('a, 'p, 'g, 'o, 'x, 'pr) world, 'pr, 'v) trainer \<times> ('a, 'p, 'g, 'o, 'x, 'pr) world
    \<Rightarrow> error + ('a, ('a, 'p, 'g, 'o, 'x, 'pr) world, 'pr, 'v) trainer \<times> ('a, 'p, 'g, 'o, 'x, 'pr) world" where
  "test c args = (\<lambda>(t, w).
     let w = model_train False w;
         t = t\<lparr>iteration := 0\<rparr>;
         w = optimizer_zero_grad c w
     in case for_each (cast c) (chunks (batchsize t) args (cuda t)) (test_batch c) (t, w) of
          Inl e \<Rightarrow> Inl e
        | Inr (t, w) \<Rightarrow>
            let w = optimizer_zero_grad c w;
                t = flush_log (t\<lparr>iteration := 0\<rparr>)
            in Inr (t, model_train True w))"

section \<open>Reading the record of calls\<close>

text \<open>The arguments of the calls of \<open>forward\<close> and of \<open>loss\<close>, in order.\<close>

fun forward_args :: "('a, 'pr) event \<Rightarrow> 'a variable list list" where
  "forward_args (Forward xs) = [xs]"
| "forward_args _ = []"

definition forward_calls :: "('a, 'pr) event list \<Rightarrow> 'a variable list list" where
  "forward_calls tr = concat (map forward_args tr)"

fun loss_args :: "('a, 'pr) event \<Rightarrow> ('pr \<times> 'a variable list) list" where
  "loss_args (Loss pred ys) = [(pred, ys)]"
| "loss_args _ = []"

definition loss_calls :: "('a, 'pr) event list \<Rightarrow> ('pr \<times> 'a variable list) list" where
  "loss_calls tr = concat (map loss_args tr)"

text \<open>The calls that write gradients or parameters from them.\<close>

fun is_grad_call :: "('a, 'pr) event \<Rightarrow> bool" where
  "is_grad_call Backward = True"
| "is_grad_call (ClipGradNorm m) = True"
| "is_grad_call Step = True"
| "is_grad_call _ = False"

definition grad_calls :: "('a, 'pr) event list \<Rightarrow> ('a, 'pr) event list" where
  "grad_calls tr = filter is_grad_call tr"

section \<open>A small model, optimizer and dataset\<close>

text \<open>
  One concrete choice of everything the Trainer is given, to run it on: a model with one
  integer parameter whose prediction is the parameter and whose loss is the prediction,
  plain gradient descent counting its steps, a shuffle that rotates the rows by the
  seed it is given, a random generator and a clock that count their calls.
\<close>

definition demo :: "(int, int, int, nat, nat, int, int) collab" where
  "demo = \<lparr>cast = (\<lambda>t x. x),
           forward = (\<lambda>tr p xs. p),
           loss = (\<lambda>tr p pred ys. pred),
           terms = (\<lambda>l. [l]),
           py_sum = sum_list,
           item = real_of_int,
           backward = (\<lambda>kw l p g. g + l),
           clip_grad_norm = (\<lambda>m p g. min g \<lfloor>m\<rfloor>),
           zero_grad = (\<lambda>g. 0),
           step = (\<lambda>os p g. (Suc os, p - g)),
           grad_abs_max = (\<lambda>p g. [\<bar>real_of_int g\<bar>]),
           shuffle = (\<lambda>rs arrs. Inr (map (\<lambda>a. a\<lparr>rows := rotate (nat rs) (rows a)\<rparr>) arrs)),
           randint = (\<lambda>lo hi x. (lo + int x mod (hi - lo + 1), Suc x)),
           time_time = (\<lambda>x. (real x, Suc x)),
           max_of = (\<lambda>v. 2),
           column = (\<lambda>v k. v)\<rparr>"

definition demo_world :: "(int, int, int, nat, nat, int) world" where
  "demo_world = \<lparr>training = True, params = 1, grads = 0, opt_state = 0, outside = 0, calls = []\<rparr>"

definition demo_X :: "int ndarray" where
  "demo_X = \<lparr>dtype = ''float64'', rows = replicate 100 0\<rparr>"

definition demo_Y :: "int ndarray" where
  "demo_Y = \<lparr>dtype = ''int32'', rows = replicate 100 1\<rparr>"

text \<open>A dataset of three distinct rows, on which the order of the rows can be seen.\<close>

definition demo_A :: "int ndarray" where
  "demo_A = \<lparr>dtype = ''float64'', rows = [10, 20, 30]\<rparr>"

definition demo_B :: "int ndarray" where
  "demo_B = \<lparr>dtype = ''int32'', rows = [1, 2, 3]\<rparr>"

definition demo_trainer :: "(int, (int, int, int, nat, nat, int) world, int, int) trainer" where
  "demo_trainer = (Trainer_default [])\<lparr>batchsize := 30\<rparr>"

section \<open>Properties of the batcher\<close>

lemma py_range_pos:
  "0 < n \<Longrightarrow> py_range i stop n = map (\<lambda>k. i + int k * n) [0..<nat ((stop - i + n - 1) div n)]"
proof (induction i stop n rule: py_range.induct)
  case (1 i stop step)
  show ?case
  proof (cases "i < stop")
    case True
    have d: "(stop - i + step - 1) div step = (stop - (i + step) + step - 1) div step + 1"
    proof -
      have "(stop - i - 1 + step) div step = (stop - i - 1) div step + 1"
        using 1(3) by (intro div_add_self2) simp
      then show ?thesis by (simp add: algebra_simps)
    qed
    have nn: "0 \<le> (stop - (i + step) + step - 1) div step"
      using True 1(3) by (simp add: pos_imp_zdiv_nonneg_iff)
    have "nat ((stop - i + step - 1) div step) = Suc (nat ((stop - (i + step) + step - 1) div step))"
      using d nn by simp
    then have "[0..<nat ((stop - i + step - 1) div step)]
        = 0 # map Suc [0..<nat ((stop - (i + step) + step - 1) div step)]"
      by (simp add: upt_conv_Cons map_Suc_upt del: upt_Suc)
    moreover have "py_range i stop step = i # py_range (i + step) stop step"
      using True 1(3) by (subst py_range.simps) simp
    ultimately show ?thesis using 1(1) [OF _ 1(3)] True 1(3)
      by (simp add: algebra_simps)
  next
    case False
    then have "stop - i + step - 1 < step" by simp
    then have "(stop - i + step - 1) div step \<le> (step - 1) div step"
      using 1(3) by (intro zdiv_mono1) simp_all
    also have "(step - 1) div step = 0"
      using 1(3) by (simp add: div_pos_pos_trivial)
    finally have "(stop - i + step - 1) div step \<le> 0" .
    moreover have "py_range i stop step = []"
      using False 1(3) by (subst py_range.simps) simp
    ultimately show ?thesis by simp
  qed
qed


lemma for_each_Suspended:
  "for_each cf (Suspended body is n arrs) f s
     = run_all f (map (\<lambda>i. yielded cf body i n arrs) is) s"
proof (induction "is" arbitrary: s)
  case Nil
  show ?case by (subst for_each.simps) simp
next
  case (Cons i rest)
  show ?case
    by (subst for_each.simps) (simp add: Cons.IH split: sum.splits)
qed

lemma drain_Suspended:
  "drain cf (Suspended body is n arrs) = Inr (map (\<lambda>i. yielded cf body i n arrs) is)"
proof (induction "is")
  case Nil
  show ?case by (subst drain.simps) simp
next
  case (Cons i rest)
  show ?case by (subst drain.simps) (simp add: Cons.IH)
qed

lemma loop_step_Some:
  "loop_step cf body is n arrs = Inr (Some (b, g')) \<Longrightarrow> \<exists>rest. g' = Suspended body rest n arrs"
  by (cases "is") auto

lemma resume_Created_Cons:
  "resume cf (Created body n (a # as)) =
     (if \<not> (\<forall>b\<in>set as. shape0 b = shape0 a)
      then Inl (AssertionError ''Not all arrays are of same shape'')
      else if n = 0 then Inl ValueError
      else loop_step cf body (py_range 0 (shape0 a) n) n (a # as))"
  by (simp add: Let_def list_all_iff eq_commute [of "shape0 a"])

lemma for_each_drain:
  "for_each cf g f s = (case drain cf g of Inl e \<Rightarrow> Inl e | Inr bs \<Rightarrow> run_all f bs s)"
proof (cases g)
  case (Created body n arrs)
  show ?thesis
  proof (cases "resume cf g")
    case (Inl e)
    then show ?thesis by (subst for_each.simps, subst drain.simps) simp
  next
    case (Inr r)
    show ?thesis
    proof (cases r)
      case None
      with Inr show ?thesis by (subst for_each.simps, subst drain.simps) simp
    next
      case (Some bg)
      obtain b g' where bg: "bg = (b, g')" by (cases bg)
      have "\<exists>is. g' = Suspended body is n arrs"
      proof (cases arrs)
        case Nil
        with Inr Some bg Created show ?thesis by simp
      next
        case (Cons a as)
        with Inr Some bg Created
        have "loop_step cf body (py_range 0 (shape0 a) n) n arrs = Inr (Some (b, g'))"
          by (simp add: resume_Created_Cons del: resume.simps split: if_splits)
        then show ?thesis by (rule loop_step_Some)
      qed
      then obtain "is" where g': "g' = Suspended body is n arrs" by blast
      show ?thesis
        using Inr Some bg g'
        by (subst for_each.simps, subst drain.simps)
           (simp add: for_each_Suspended drain_Suspended split: sum.splits)
    qed
  qed
next
  case (Suspended body "is" n arrs)
  then show ?thesis by (simp add: for_each_Suspended drain_Suspended)
next
  case Finished
  then show ?thesis by (subst for_each.simps, subst drain.simps) simp
qed

lemma drain_Created:
  "drain cf (Created body n arrs) =
     (case arrs of
        [] \<Rightarrow> Inl IndexError
      | a # as \<Rightarrow>
          if \<not> (\<forall>b\<in>set as. shape0 b = shape0 a)
          then Inl (AssertionError ''Not all arrays are of same shape'')
          else if n = 0 then Inl ValueError
          else Inr (map (\<lambda>i. yielded cf body i n arrs) (py_range 0 (shape0 a) n)))"
proof (cases arrs)
  case Nil
  then show ?thesis by (subst drain.simps) simp
next
  case (Cons a as)
  show ?thesis
  proof (cases "py_range 0 (shape0 a) n")
    case Nil
    then show ?thesis unfolding Cons
      by (subst drain.simps) (simp add: resume_Created_Cons del: resume.simps)
  next
    case (Cons i rest)
    then show ?thesis unfolding \<open>arrs = a # as\<close>
      by (subst drain.simps) (simp add: resume_Created_Cons drain_Suspended del: resume.simps)
  qed
qed

lemma py_range_0:
  "0 < n \<Longrightarrow> py_range 0 L n = map (\<lambda>k. int k * n) [0..<nat ((L + n - 1) div n)]"
  using py_range_pos [of n 0 L] by simp

lemma ceiling_div:
  assumes "0 < (n::int)"
  shows "\<lceil>real_of_int L / real_of_int n\<rceil> = (L + n - 1) div n"
proof -
  define m where "m = (L + n - 1) div n"
  have eq: "L + n - 1 = n * m + (L + n - 1) mod n"
    unfolding m_def by simp
  have lo: "0 \<le> (L + n - 1) mod n" and hi: "(L + n - 1) mod n < n"
    using assms by simp_all
  have up: "L \<le> m * n" using eq hi by (simp add: algebra_simps)
  have dn: "(m - 1) * n < L" using eq lo by (simp add: algebra_simps)
  have rn: "0 < real_of_int n" using assms by simp
  have "real_of_int L \<le> real_of_int (m * n)" using up by (simp only: of_int_le_iff)
  then have a: "real_of_int L / real_of_int n \<le> real_of_int m"
    using rn by (simp add: pos_divide_le_eq)
  have "real_of_int ((m - 1) * n) < real_of_int L" using dn by (simp only: of_int_less_iff)
  then have b: "real_of_int m - 1 < real_of_int L / real_of_int n"
    using rn by (simp add: pos_less_divide_eq)
  show ?thesis unfolding m_def [symmetric] using a b by (intro ceiling_unique) simp_all
qed

lemma py_slice_nat:
  assumes "0 < n"
  shows "py_slice xs (int j) (int j + n) = take (nat n) (drop j xs)"
proof (cases "j \<le> length xs")
  case True
  have a: "slice_bound (int (length xs)) (int j) = int j"
    using True by (simp add: slice_bound_def)
  have b: "slice_bound (int (length xs)) (int j + n) = min (int (length xs)) (int j + n)"
    using assms by (simp add: slice_bound_def)
  have "nat (min (int (length xs)) (int j + n) - int j) = min (length xs - j) (nat n)"
    using True assms by (simp add: min_def) linarith
  then have "py_slice xs (int j) (int j + n)
      = take (min (length (drop j xs)) (nat n)) (drop j xs)"
    using a b by (simp add: py_slice_def Let_def)
  also have "\<dots> = take (nat n) (drop j xs)"
    by (simp add: min_def)
  finally show ?thesis .
next
  case False
  have a: "slice_bound (int (length xs)) (int j) = int (length xs)"
    using False by (simp add: slice_bound_def)
  have b: "slice_bound (int (length xs)) (int j + n) = int (length xs)"
    using False assms by (simp add: slice_bound_def)
  show ?thesis using a b False by (simp add: py_slice_def Let_def)
qed

lemma py_slice_take_drop:
  assumes "0 < n"
  shows "py_slice xs (int k * n) (int k * n + n) = take (nat n) (drop (k * nat n) xs)"
proof -
  have "int (k * nat n) = int k * n" using assms by simp
  then show ?thesis using py_slice_nat [OF assms, of xs "k * nat n"] by (simp only:)
qed

lemma concat_chunks:
  "0 < n \<Longrightarrow> length xs \<le> m * n
     \<Longrightarrow> concat (map (\<lambda>k. take n (drop (k * n) xs)) [0..<m]) = xs"
proof (induction m arbitrary: xs)
  case 0
  then show ?case by simp
next
  case (Suc m)
  have up: "[0..<Suc m] = 0 # map Suc [0..<m]"
    by (simp add: upt_conv_Cons map_Suc_upt del: upt_Suc)
  have "length (drop n xs) \<le> m * n" using Suc.prems by simp
  from Suc.IH [OF Suc.prems(1) this]
  have "concat (map (\<lambda>k. take n (drop (k * n) (drop n xs))) [0..<m]) = drop n xs" .
  then have "concat (map (\<lambda>k. take n (drop (Suc k * n) xs)) [0..<m]) = drop n xs"
    by (simp add: add.commute)
  then show ?case unfolding up by (simp add: comp_def)
qed

lemma batch_count_bounds:
  assumes n: "0 < n" and L: "0 \<le> L"
  defines "m \<equiv> nat ((L + n - 1) div n)"
  shows "nat L \<le> m * nat n" and "\<And>k. k < m \<Longrightarrow> k * nat n < nat L"
proof -
  define q where "q = (L + n - 1) div n"
  have q0: "0 \<le> q" unfolding q_def using n L by (simp add: pos_imp_zdiv_nonneg_iff)
  have eq: "L + n - 1 = n * q + (L + n - 1) mod n" unfolding q_def by simp
  have lo: "0 \<le> (L + n - 1) mod n" and hi: "(L + n - 1) mod n < n" using n by simp_all
  have up: "L \<le> q * n" using eq hi by (simp add: algebra_simps)
  have m: "int m = q" unfolding m_def q_def [symmetric] using q0 by simp
  have "int (nat L) \<le> int (m * nat n)" using up L n m by simp
  then show "nat L \<le> m * nat n" by (simp only: of_nat_le_iff)
  fix k assume "k < m"
  then have "int k + 1 \<le> q" using m by linarith
  then have "(int k + 1) * n \<le> q * n" using n by (intro mult_right_mono) simp_all
  also have "q * n \<le> L + n - 1" using eq lo by (simp add: algebra_simps)
  finally have "int k * n < L" by (simp add: algebra_simps)
  then have "int (k * nat n) < int (nat L)" using n L by simp
  then show "k * nat n < nat L" by (simp only: of_nat_less_iff)
qed

lemma drain_Created_batches:
  fixes wrap :: "'a ndarray \<Rightarrow> 'a variable"
  assumes n: "1 \<le> n" and ne: "arrs \<noteq> []" and len: "\<forall>a\<in>set arrs. shape0 a = L"
    and y: "\<And>i. yielded cf body i n arrs = map (\<lambda>arr. wrap (slice_arr arr i (i + n))) arrs"
    and w: "\<And>a. length (rows (tensor (wrap a))) = length (rows a)"
  shows "\<exists>bs. drain cf (Created body n arrs) = Inr bs
      \<and> int (length bs) = \<lceil>real_of_int L / real_of_int n\<rceil>
      \<and> (\<forall>k<length bs. bs ! k
            = map (\<lambda>arr. wrap (arr\<lparr>rows := take (nat n) (drop (k * nat n) (rows arr))\<rparr>)) arrs)
      \<and> (\<forall>k<length bs. \<forall>v\<in>set (bs ! k).
            length (rows (tensor v)) = (if Suc k < length bs then nat n else nat L - k * nat n)
            \<and> 0 < length (rows (tensor v)) \<and> length (rows (tensor v)) \<le> nat n)
      \<and> (\<forall>j<length arrs. (\<Sum>b\<leftarrow>bs. length (rows (tensor (b ! j)))) = nat L)"
proof -
  have n0: "0 < n" and nz: "n \<noteq> 0" using n by simp_all
  obtain a as where arrs: "arrs = a # as" using ne by (cases arrs) auto
  have La: "shape0 a = L" using len arrs by simp
  have L0: "0 \<le> L" using La by (simp add: shape0_def)
  have lenr: "\<And>b. b \<in> set arrs \<Longrightarrow> length (rows b) = nat L"
    using len by (auto simp: shape0_def)
  define m where "m = nat ((L + n - 1) div n)"
  define bs where "bs = map (\<lambda>k. map (\<lambda>arr. wrap (arr\<lparr>rows := take (nat n) (drop (k * nat n) (rows arr))\<rparr>)) arrs) [0..<m]"
  have same: "\<forall>b\<in>set as. shape0 b = shape0 a" using len arrs by simp
  have "drain cf (Created body n arrs)
      = Inr (map (\<lambda>i. yielded cf body i n arrs) (py_range 0 L n))"
    using same nz La by (simp add: drain_Created arrs)
  also have "map (\<lambda>i. yielded cf body i n arrs) (py_range 0 L n) = bs"
    unfolding bs_def m_def
    by (simp add: py_range_0 [OF n0] y slice_arr_def py_slice_take_drop [OF n0] comp_def)
  finally have d: "drain cf (Created body n arrs) = Inr bs" .
  have lbs: "length bs = m" by (simp add: bs_def)
  have q0: "0 \<le> (L + n - 1) div n" using n0 L0 by (simp add: pos_imp_zdiv_nonneg_iff)
  have cnt: "int (length bs) = \<lceil>real_of_int L / real_of_int n\<rceil>"
    using q0 by (simp add: lbs m_def ceiling_div [OF n0])
  have nth: "\<forall>k<length bs. bs ! k
      = map (\<lambda>arr. wrap (arr\<lparr>rows := take (nat n) (drop (k * nat n) (rows arr))\<rparr>)) arrs"
    by (simp add: bs_def)
  have cover: "nat L \<le> m * nat n" and below: "\<And>k. k < m \<Longrightarrow> k * nat n < nat L"
    using batch_count_bounds [OF n0 L0] unfolding m_def by simp_all
  have lens: "\<forall>k<length bs. \<forall>v\<in>set (bs ! k).
      length (rows (tensor v)) = (if Suc k < length bs then nat n else nat L - k * nat n)
      \<and> 0 < length (rows (tensor v)) \<and> length (rows (tensor v)) \<le> nat n"
  proof (intro allI impI ballI)
    fix k v assume k: "k < length bs" and v: "v \<in> set (bs ! k)"
    then obtain arr where arr: "arr \<in> set arrs"
      and veq: "v = wrap (arr\<lparr>rows := take (nat n) (drop (k * nat n) (rows arr))\<rparr>)"
      using nth by auto
    define j where "j = k * nat n"
    have lv: "length (rows (tensor v)) = min (nat L - j) (nat n)"
      using veq lenr [OF arr] by (simp add: w j_def)
    have km: "k < m" using k lbs by simp
    have pos: "j < nat L" using below [OF km] by (simp add: j_def)
    have full: "Suc k < m \<Longrightarrow> j + nat n < nat L"
      using below [of "Suc k"] by (simp add: j_def add.commute)
    have last: "\<not> Suc k < m \<Longrightarrow> nat L - j \<le> nat n"
    proof -
      assume "\<not> Suc k < m"
      with km have "m = Suc k" by simp
      with cover show ?thesis by (simp add: j_def)
    qed
    have n1: "0 < nat n" using n0 by simp
    show "length (rows (tensor v)) = (if Suc k < length bs then nat n else nat L - k * nat n)
      \<and> 0 < length (rows (tensor v)) \<and> length (rows (tensor v)) \<le> nat n"
    proof (cases "Suc k < m")
      case True
      from full [OF True] have "min (nat L - j) (nat n) = nat n" by linarith
      then show ?thesis using lv True n1 by (simp add: lbs)
    next
      case False
      from last [OF False] have "min (nat L - j) (nat n) = nat L - j" by linarith
      then show ?thesis using lv False pos last [OF False] by (simp add: lbs j_def)
    qed
  qed
  have total: "\<forall>j<length arrs. (\<Sum>b\<leftarrow>bs. length (rows (tensor (b ! j)))) = nat L"
  proof (intro allI impI)
    fix j assume j: "j < length arrs"
    define xs where "xs = rows (arrs ! j)"
    have lx: "length xs = nat L" unfolding xs_def using lenr j by simp
    have "(\<Sum>b\<leftarrow>bs. length (rows (tensor (b ! j))))
        = (\<Sum>k\<leftarrow>[0..<m]. length (take (nat n) (drop (k * nat n) xs)))"
      using j unfolding bs_def xs_def by (simp add: comp_def w)
    also have "\<dots> = length (concat (map (\<lambda>k. take (nat n) (drop (k * nat n) xs)) [0..<m]))"
      by (simp add: length_concat comp_def)
    also have "\<dots> = length xs"
      using concat_chunks [of "nat n" xs m] n0 cover lx by simp
    finally show "(\<Sum>b\<leftarrow>bs. length (rows (tensor (b ! j)))) = nat L" using lx by simp
  qed
  from d cnt nth lens total show ?thesis by blast
qed

text \<open>
  Claim C2. For every batch size \<open>n \<ge> 1\<close> and every non-empty family of arrays that
  share the leading length \<open>L\<close>, consuming \<open>chunks\<close> (and likewise \<open>chunk_shuffle\<close>)
  yields exactly \<open>\<lceil>L / n\<rceil>\<close> batches; batch \<open>k\<close> holds, for every array, its entries
  \<open>[k * n : k * n + n]\<close> (converted by \<open>to_32\<close> in \<open>chunks\<close>, as they are in
  \<open>chunk_shuffle\<close>); every batch has \<open>n\<close> entries per array except the last, which has
  between \<open>1\<close> and \<open>n\<close>; and the batch lengths sum to \<open>L\<close>.
\<close>

theorem chunk_batches:
  fixes arrs :: "'a ndarray list"
  assumes "1 \<le> n" and "arrs \<noteq> []" and "\<forall>a\<in>set arrs. shape0 a = L"
  shows "\<forall>(g, wrap) \<in> {(chunks n arrs cu, \<lambda>a. (if cu then to_cuda else id) (Variable (to_32 cf a))),
                         (chunk_shuffle n arrs, Variable)}.
     \<exists>bs. drain cf g = Inr bs
      \<and> int (length bs) = \<lceil>real_of_int L / real_of_int n\<rceil>
      \<and> (\<forall>k<length bs. bs ! k
            = map (\<lambda>arr. wrap (arr\<lparr>rows := take (nat n) (drop (k * nat n) (rows arr))\<rparr>)) arrs)
      \<and> (\<forall>k<length bs. \<forall>v\<in>set (bs ! k).
            length (rows (tensor v)) = (if Suc k < length bs then nat n else nat L - k * nat n)
            \<and> 0 < length (rows (tensor v)) \<and> length (rows (tensor v)) \<le> nat n)
      \<and> (\<forall>j<length arrs. (\<Sum>b\<leftarrow>bs. length (rows (tensor (b ! j)))) = nat L)"
proof -
  have y1: "\<And>i. yielded cf (ChunksBody cu) i n arrs
      = map (\<lambda>arr. (if cu then to_cuda else id) (Variable (to_32 cf (slice_arr arr i (i + n))))) arrs"
    by (simp add: Let_def)
  have w1: "\<And>a. length (rows (tensor ((if cu then to_cuda else id) (Variable (to_32 cf a)))))
      = length (rows a)"
    by (simp add: to_cuda_def Variable_def to_32_def astype_def)
  have y2: "\<And>i. yielded cf ChunkShuffleBody i n arrs
      = map (\<lambda>arr. Variable (slice_arr arr i (i + n))) arrs"
    by simp
  have w2: "\<And>a::'a ndarray. length (rows (tensor (Variable a))) = length (rows a)"
    by (simp add: Variable_def)
  note A = drain_Created_batches [OF assms y1 w1]
  note B = drain_Created_batches [OF assms y2 w2]
  show ?thesis
    unfolding chunks_def chunk_shuffle_def using A B by simp
qed

text \<open>The example of the specification: 100 rows in batches of 30.\<close>

theorem chunk_batches_witness:
  "\<exists>bs. drain (\<lambda>t x. x) (chunks 30 [\<lparr>dtype = ''float64'', rows = replicate 100 (0::int)\<rparr>,
                                      \<lparr>dtype = ''int32'', rows = replicate 100 1\<rparr>] False) = Inr bs
     \<and> length bs = 4
     \<and> map (\<lambda>k. length (rows (tensor (bs ! k ! 0)))) [0, 1, 2, 3] = [30, 30, 30, 10]
     \<and> dtype (tensor (bs ! 0 ! 0)) = ''float32'' \<and> dtype (tensor (bs ! 0 ! 1)) = ''int64''
     \<and> (\<Sum>b\<leftarrow>bs. length (rows (tensor (b ! 0)))) = 100"
proof -
  let ?X = "\<lparr>dtype = ''float64'', rows = replicate 100 (0::int)\<rparr>"
  let ?Y = "\<lparr>dtype = ''int32'', rows = replicate 100 (1::int)\<rparr>"
  have h1: "(1::int) \<le> 30" by simp
  have h2: "[?X, ?Y] \<noteq> []" by simp
  have h3: "\<forall>a\<in>set [?X, ?Y]. shape0 a = 100" by (simp add: shape0_def)
  from chunk_batches [OF h1 h2 h3, of False "\<lambda>t x. x"]
  obtain bs where d: "drain (\<lambda>t x. x) (chunks 30 [?X, ?Y] False) = Inr bs"
    and c: "int (length bs) = \<lceil>real_of_int 100 / real_of_int 30\<rceil>"
    and s: "\<forall>k<length bs. bs ! k
        = map (\<lambda>arr. (if False then to_cuda else id) (Variable (to_32 (\<lambda>t x. x)
            (arr\<lparr>rows := take (nat 30) (drop (k * nat 30) (rows arr))\<rparr>)))) [?X, ?Y]"
    and t: "\<forall>j<length [?X, ?Y]. (\<Sum>b\<leftarrow>bs. length (rows (tensor (b ! j)))) = nat 100"
    by auto
  have l: "length bs = 4" using c by simp
  have b0: "bs ! 0 = map (\<lambda>arr. Variable (to_32 (\<lambda>t x. x)
      (arr\<lparr>rows := take 30 (drop 0 (rows arr))\<rparr>))) [?X, ?Y]"
    using s [rule_format, of 0] l by simp
  have b1: "bs ! 1 = map (\<lambda>arr. Variable (to_32 (\<lambda>t x. x)
      (arr\<lparr>rows := take 30 (drop 30 (rows arr))\<rparr>))) [?X, ?Y]"
    using s [rule_format, of 1] l by simp
  have b2: "bs ! 2 = map (\<lambda>arr. Variable (to_32 (\<lambda>t x. x)
      (arr\<lparr>rows := take 30 (drop 60 (rows arr))\<rparr>))) [?X, ?Y]"
    using s [rule_format, of 2] l by simp
  have b3: "bs ! 3 = map (\<lambda>arr. Variable (to_32 (\<lambda>t x. x)
      (arr\<lparr>rows := take 30 (drop 90 (rows arr))\<rparr>))) [?X, ?Y]"
    using s [rule_format, of 3] l by simp
  have t0: "(\<Sum>b\<leftarrow>bs. length (rows (tensor (b ! 0)))) = 100"
    using t [rule_format, of 0] by simp
  have ls: "length (rows (tensor (bs ! 0 ! 0))) = 30" "length (rows (tensor (bs ! 1 ! 0))) = 30"
    "length (rows (tensor (bs ! 2 ! 0))) = 30" "length (rows (tensor (bs ! 3 ! 0))) = 10"
    unfolding b0 b1 b2 b3 by (simp_all add: Variable_def to_32_def astype_def)
  have ds: "dtype (tensor (bs ! 0 ! 0)) = ''float32''" "dtype (tensor (bs ! 0 ! 1)) = ''int64''"
    by (simp_all add: b0 Variable_def to_32_def astype_def)
  show ?thesis using d l t0 ls ds by simp
qed

text \<open>
  Claim C3, amended. When two of the arrays given to \<open>chunks\<close> or \<open>chunk_shuffle\<close>
  differ in leading length, the call itself returns a generator that has run none of its
  body; the first request for a batch raises the shape-mismatch assertion, so that no
  batch is produced and a loop over the generator never runs its body.
\<close>

theorem mismatch_raises_on_first_request:
  fixes arrs :: "'a ndarray list"
  assumes "a \<in> set arrs" and "b \<in> set arrs" and "shape0 a \<noteq> shape0 b"
  shows "\<forall>g \<in> {chunks n arrs cu, chunk_shuffle n arrs}.
     (\<exists>body. g = Created body n arrs)
     \<and> resume cf g = Inl (AssertionError ''Not all arrays are of same shape'')
     \<and> drain cf g = Inl (AssertionError ''Not all arrays are of same shape'')
     \<and> (\<forall>(f :: 'a variable list \<Rightarrow> 's \<Rightarrow> error + 's) s.
           for_each cf g f s = Inl (AssertionError ''Not all arrays are of same shape''))"
proof -
  obtain x xs where arrs: "arrs = x # xs" using assms(1) by (cases arrs) auto
  have diff: "\<not> (\<forall>y\<in>set xs. shape0 y = shape0 x)"
  proof
    assume "\<forall>y\<in>set xs. shape0 y = shape0 x"
    then have "\<forall>y\<in>set arrs. shape0 y = shape0 x" using arrs by simp
    then have "shape0 a = shape0 x" "shape0 b = shape0 x" using assms(1,2) by blast+
    with assms(3) show False by simp
  qed
  have r: "resume cf (Created body n arrs) = Inl (AssertionError ''Not all arrays are of same shape'')"
    for body
    unfolding arrs using diff by (simp add: resume_Created_Cons del: resume.simps)
  have d: "drain cf (Created body n arrs) = Inl (AssertionError ''Not all arrays are of same shape'')"
    for body
    unfolding arrs using diff by (simp add: drain_Created)
  have f: "for_each cf (Created body n arrs) f s
      = Inl (AssertionError ''Not all arrays are of same shape'')" for body and f :: "'a variable list \<Rightarrow> 's \<Rightarrow> error + 's" and s
    by (simp add: for_each_drain d)
  show ?thesis
    unfolding chunks_def chunk_shuffle_def using r d f by simp
qed

theorem mismatch_raises_on_first_request_witness:
  "resume (\<lambda>t x. x) (chunks 2 [\<lparr>dtype = ''float64'', rows = [1, 2, 3 :: int]\<rparr>,
                                \<lparr>dtype = ''float64'', rows = [1, 2]\<rparr>] False)
     = Inl (AssertionError ''Not all arrays are of same shape'')
   \<and> drain (\<lambda>t x. x) (chunk_shuffle 2 [\<lparr>dtype = ''float64'', rows = [1, 2, 3 :: int]\<rparr>,
                                \<lparr>dtype = ''float64'', rows = [1, 2]\<rparr>])
     = Inl (AssertionError ''Not all arrays are of same shape'')
   \<and> for_each (\<lambda>t x. x) (chunks 2 [\<lparr>dtype = ''float64'', rows = [1, 2, 3 :: int]\<rparr>,
                                \<lparr>dtype = ''float64'', rows = [1, 2]\<rparr>] False)
         (\<lambda>batch (k :: nat). Inr (Suc k)) 0
     = Inl (AssertionError ''Not all arrays are of same shape'')"
proof -
  let ?A = "\<lparr>dtype = ''float64'', rows = [1, 2, 3 :: int]\<rparr>"
  let ?B = "\<lparr>dtype = ''float64'', rows = [1, 2 :: int]\<rparr>"
  have h1: "?A \<in> set [?A, ?B]" and h2: "?B \<in> set [?A, ?B]" by simp_all
  have h3: "shape0 ?A \<noteq> shape0 ?B" by (simp add: shape0_def)
  note T = mismatch_raises_on_first_request [OF h1 h2 h3, of 2 False "\<lambda>t x. x", where ?'s = nat]
  show ?thesis using T by simp
qed

text \<open>
  Claim C3 as stated: the call does not fail. On arrays of 3 and of 2 rows it returns the
  generator, and the error is the outcome of the first \<open>resume\<close>.
\<close>

theorem call_of_generator_does_not_fail:
  "chunks 2 [\<lparr>dtype = ''float64'', rows = [1, 2, 3 :: int]\<rparr>,
             \<lparr>dtype = ''float64'', rows = [1, 2]\<rparr>] False
     = Created (ChunksBody False) 2 [\<lparr>dtype = ''float64'', rows = [1, 2, 3]\<rparr>,
                                     \<lparr>dtype = ''float64'', rows = [1, 2]\<rparr>]
   \<and> chunk_shuffle 2 [\<lparr>dtype = ''float64'', rows = [1, 2, 3 :: int]\<rparr>,
                      \<lparr>dtype = ''float64'', rows = [1, 2]\<rparr>]
     = Created ChunkShuffleBody 2 [\<lparr>dtype = ''float64'', rows = [1, 2, 3]\<rparr>,
                                   \<lparr>dtype = ''float64'', rows = [1, 2]\<rparr>]
   \<and> resume (\<lambda>t x. x)
        (Created (ChunksBody False) 2 [\<lparr>dtype = ''float64'', rows = [1, 2, 3 :: int]\<rparr>,
                                       \<lparr>dtype = ''float64'', rows = [1, 2]\<rparr>])
     = Inl (AssertionError ''Not all arrays are of same shape'')"
  by (simp add: chunks_def chunk_shuffle_def shape0_def)

section \<open>Properties of the loop bodies and of the passes\<close>

lemma record_call_fields [simp]:
  "training (record_call e w) = training w" "params (record_call e w) = params w"
  "grads (record_call e w) = grads w" "opt_state (record_call e w) = opt_state w"
  "outside (record_call e w) = outside w" "calls (record_call e w) = calls w @ [e]"
  by (simp_all add: record_call_def)

lemma model_train_fields [simp]:
  "training (model_train flag w) = flag" "params (model_train flag w) = params w"
  "grads (model_train flag w) = grads w" "opt_state (model_train flag w) = opt_state w"
  "outside (model_train flag w) = outside w"
  "calls (model_train flag w) = calls w @ [Train flag]"
  by (simp_all add: model_train_def)

lemma optimizer_zero_grad_fields [simp]:
  "training (optimizer_zero_grad c w) = training w"
  "params (optimizer_zero_grad c w) = params w"
  "grads (optimizer_zero_grad c w) = zero_grad c (grads w)"
  "opt_state (optimizer_zero_grad c w) = opt_state w"
  "outside (optimizer_zero_grad c w) = outside w"
  "calls (optimizer_zero_grad c w) = calls w @ [ZeroGrad]"
  by (simp_all add: optimizer_zero_grad_def)

lemma call_backward_fields [simp]:
  "training (call_backward c kw l w) = training w"
  "params (call_backward c kw l w) = params w"
  "grads (call_backward c kw l w) = backward c kw l (params w) (grads w)"
  "opt_state (call_backward c kw l w) = opt_state w"
  "outside (call_backward c kw l w) = outside w"
  "calls (call_backward c kw l w) = calls w @ [Backward]"
  by (simp_all add: call_backward_def)

lemma clip_if_set_fields [simp]:
  "training (clip_if_set c cl w) = training w"
  "params (clip_if_set c cl w) = params w"
  "grads (clip_if_set c cl w)
     = (if truthy cl then clip_grad_norm c (the cl) (params w) (grads w) else grads w)"
  "opt_state (clip_if_set c cl w) = opt_state w"
  "outside (clip_if_set c cl w) = outside w"
  "calls (clip_if_set c cl w) = calls w @ (if truthy cl then [ClipGradNorm (the cl)] else [])"
  by (simp_all add: clip_if_set_def call_clip_grad_norm_def)

lemma optimizer_step_fields [simp]:
  "training (optimizer_step c w) = training w"
  "params (optimizer_step c w) = snd (step c (opt_state w) (params w) (grads w))"
  "grads (optimizer_step c w) = grads w"
  "opt_state (optimizer_step c w) = fst (step c (opt_state w) (params w) (grads w))"
  "outside (optimizer_step c w) = outside w"
  "calls (optimizer_step c w) = calls w @ [Step]"
  by (simp_all add: optimizer_step_def split: prod.splits)

lemma print_log_fields [simp]:
  "training (print_log h w) = training w" "params (print_log h w) = params w"
  "grads (print_log h w) = grads w" "opt_state (print_log h w) = opt_state w"
  "outside (print_log h w) = outside w" "calls (print_log h w) = calls w @ [PrintLog h]"
  by (simp_all add: print_log_def)

lemma call_time_eq:
  "call_time c w = (fst (time_time c (outside w)), w\<lparr>outside := snd (time_time c (outside w))\<rparr>)"
  by (simp add: call_time_def split: prod.splits)

lemma run_callbacks_eq:
  "run_callbacks c b p kw (t, w)
     = (t\<lparr>log' := log' t @ [last (log' (fst (run_callbacks c b p kw (t, w))))]\<rparr>,
        w\<lparr>outside := snd (time_time c (outside w))\<rparr>)"
  by (simp add: run_callbacks_def call_time_eq Let_def)

lemma run_callbacks_effect:
  "\<exists>r. run_callbacks c b p kw (t, w)
     = (t\<lparr>log' := log' t @ [r]\<rparr>, w\<lparr>outside := snd (time_time c (outside w))\<rparr>)"
  by (rule exI) (rule run_callbacks_eq)

lemma end_of_iteration_effect:
  assumes "end_of_iteration (t, w) = Inr (t', w')"
  shows "print_every t \<noteq> 0" and "t' = t\<lparr>iteration := iteration t + 1\<rparr>"
    and "w' = (if iteration t mod print_every t = 0 then print_log (iteration t = 0) w else w)"
  using assms by (auto simp: end_of_iteration_def split: if_splits)

lemma fit_batch_effect:
  assumes "fit_batch c b (t, w) = Inr (t', w')"
  shows "\<exists>r. t' = t\<lparr>log' := log' t @ [r], iteration := iteration t + 1\<rparr>"
    and "\<exists>pl. calls w' = calls w
          @ [ZeroGrad, Forward b, Loss (forward c (training w) (params w) b) b, Backward]
          @ (if truthy (clip t) then [ClipGradNorm (the (clip t))] else [])
          @ [Step] @ pl \<and> set pl \<subseteq> range PrintLog"
    and "training w' = training w"
proof -
  define pred where "pred = forward c (training w) (params w) b"
  define w4 where "w4 = record_call (Loss pred b) (record_call (Forward b)
      (optimizer_zero_grad c (w\<lparr>outside := snd (time_time c (outside w))\<rparr>)))"
  define l where "l = loss c (training w) (params w) pred b"
  have unf: "fit_batch c b (t, w) =
     (case terms c l of
        [] \<Rightarrow> Inl AttributeError
      | l0 # ls \<Rightarrow>
          let w7 = optimizer_step c (clip_if_set c (clip t)
                     (call_backward c (backward_kwargs t) (py_sum c (l0 # ls)) w4));
              w8 = w7\<lparr>outside := snd (time_time c (outside w7))\<rparr>
          in case fit_kwargs c (grad_norm t) (l0 # ls) w8 of
               Inl e \<Rightarrow> Inl e
             | Inr kwargs \<Rightarrow>
                 end_of_iteration
                   (run_callbacks c b pred
                      ([(''train'', PyBool True),
                        (''iter_time'', PyFloat (fst (time_time c (outside w7))
                            - fst (time_time c (outside w))))] @ kwargs)
                      (t, w8)))"
    by (simp add: fit_batch_def call_time_eq model_forward_def model_loss_def Let_def
        pred_def w4_def l_def split: list.splits sum.splits)
  from assms obtain l0 ls where ts: "terms c l = l0 # ls"
    unfolding unf by (cases "terms c l") simp_all
  define w7 where "w7 = optimizer_step c (clip_if_set c (clip t)
                     (call_backward c (backward_kwargs t) (py_sum c (l0 # ls)) w4))"
  define w8 where "w8 = w7\<lparr>outside := snd (time_time c (outside w7))\<rparr>"
  from assms obtain kwargs where
    fin: "end_of_iteration (run_callbacks c b pred
        ([(''train'', PyBool True),
          (''iter_time'', PyFloat (fst (time_time c (outside w7))
              - fst (time_time c (outside w))))] @ kwargs) (t, w8))
        = Inr (t', w')"
    unfolding unf ts by (simp add: Let_def w7_def [symmetric] w8_def [symmetric] split: sum.splits)
  from run_callbacks_effect [of c b pred _ t w8]
  obtain r where rc: "run_callbacks c b pred
        ([(''train'', PyBool True),
          (''iter_time'', PyFloat (fst (time_time c (outside w7))
              - fst (time_time c (outside w))))] @ kwargs) (t, w8)
      = (t\<lparr>log' := log' t @ [r]\<rparr>, w8\<lparr>outside := snd (time_time c (outside w8))\<rparr>)" by blast
  note e = end_of_iteration_effect [OF fin [unfolded rc]]
  show "\<exists>r. t' = t\<lparr>log' := log' t @ [r], iteration := iteration t + 1\<rparr>"
    using e(2) by auto
  have c8: "calls w8 = calls w
      @ [ZeroGrad, Forward b, Loss pred b, Backward]
      @ (if truthy (clip t) then [ClipGradNorm (the (clip t))] else []) @ [Step]"
    by (simp add: w8_def w7_def w4_def)
  have t8: "training w8 = training w"
    by (simp add: w8_def w7_def w4_def)
  show "\<exists>pl. calls w' = calls w
          @ [ZeroGrad, Forward b, Loss (forward c (training w) (params w) b) b, Backward]
          @ (if truthy (clip t) then [ClipGradNorm (the (clip t))] else [])
          @ [Step] @ pl \<and> set pl \<subseteq> range PrintLog"
    using e(3) c8 by (auto simp: pred_def)
  show "training w' = training w"
    using e(3) t8 by auto
qed

lemma test_batch_effect:
  assumes "test_batch c b (t, w) = Inr (t', w')"
  shows "\<exists>r. t' = t\<lparr>log' := log' t @ [r], iteration := iteration t + 1\<rparr>"
    and "\<exists>pl. calls w' = calls w
          @ [Forward (butlast b), Loss (forward c (training w) (params w) (butlast b)) [last b],
             Backward] @ pl \<and> set pl \<subseteq> range PrintLog"
    and "training w' = training w" and "params w' = params w" and "opt_state w' = opt_state w"
    and "b \<noteq> []"
proof -
  show ne: "b \<noteq> []" using assms by (auto simp: test_batch_def split: if_splits)
  define pred where "pred = forward c (training w) (params w) (butlast b)"
  define w2 where "w2 = record_call (Loss pred [last b]) (record_call (Forward (butlast b)) w)"
  define l where "l = loss c (training w) (params w) pred [last b]"
  have unf: "test_batch c b (t, w) =
     (case terms c l of
        [] \<Rightarrow> Inl AttributeError
      | l0 # ls \<Rightarrow>
          end_of_iteration
            (run_callbacks c b pred
               [(''train'', PyBool False), (''loss'', PyFloat (item c (py_sum c (l0 # ls))))]
               (t, call_backward c [] (py_sum c (l0 # ls)) w2)))"
    using ne
    by (simp add: test_batch_def model_forward_def model_loss_def Let_def
        pred_def w2_def l_def split: list.splits sum.splits)
  from assms obtain l0 ls where ts: "terms c l = l0 # ls"
    unfolding unf by (cases "terms c l") simp_all
  define w3 where "w3 = call_backward c [] (py_sum c (l0 # ls)) w2"
  from assms have
    fin: "end_of_iteration (run_callbacks c b pred
        [(''train'', PyBool False), (''loss'', PyFloat (item c (py_sum c (l0 # ls))))] (t, w3))
        = Inr (t', w')"
    unfolding unf ts by (simp add: w3_def)
  from run_callbacks_effect [of c b pred _ t w3]
  obtain r where rc: "run_callbacks c b pred
        [(''train'', PyBool False), (''loss'', PyFloat (item c (py_sum c (l0 # ls))))] (t, w3)
      = (t\<lparr>log' := log' t @ [r]\<rparr>, w3\<lparr>outside := snd (time_time c (outside w3))\<rparr>)" by blast
  note e = end_of_iteration_effect [OF fin [unfolded rc]]
  show "\<exists>r. t' = t\<lparr>log' := log' t @ [r], iteration := iteration t + 1\<rparr>"
    using e(2) by auto
  show "\<exists>pl. calls w' = calls w
          @ [Forward (butlast b), Loss (forward c (training w) (params w) (butlast b)) [last b],
             Backward] @ pl \<and> set pl \<subseteq> range PrintLog"
    using e(3) by (auto simp: pred_def w3_def w2_def)
  show "training w' = training w" "params w' = params w" "opt_state w' = opt_state w"
    using e(3) by (auto simp: w3_def w2_def)
qed

lemma frame_step_effect:
  "\<exists>w' loc'. frame_step c cl inp label frame (w, loc) = (w', Some loc')
     \<and> grad_calls (calls w') = grad_calls (calls w)
          @ [Backward] @ (if truthy cl then [ClipGradNorm (the cl)] else []) @ [Step]
     \<and> training w' = training w \<and> outside w' = outside w"
  by (simp add: frame_step_def model_forward_def model_loss_def Let_def grad_calls_def)

lemma frames_effect:
  "\<exists>w' loc'. fold (frame_step c cl inp label) frames (w, loc) = (w', loc')
     \<and> grad_calls (calls w') = grad_calls (calls w)
          @ concat (replicate (length frames)
              ([Backward] @ (if truthy cl then [ClipGradNorm (the cl)] else []) @ [Step]))
     \<and> training w' = training w"
proof (induction frames arbitrary: w loc)
  case Nil
  show ?case by simp
next
  case (Cons f fs)
  from frame_step_effect [of c cl inp label f w loc]
  obtain w1 l1 where s: "frame_step c cl inp label f (w, loc) = (w1, Some l1)"
    and g: "grad_calls (calls w1) = grad_calls (calls w)
          @ [Backward] @ (if truthy cl then [ClipGradNorm (the cl)] else []) @ [Step]"
    and t: "training w1 = training w" by blast
  from Cons.IH [of w1 "Some l1"]
  obtain w' loc' where f: "fold (frame_step c cl inp label) fs (w1, Some l1) = (w', loc')"
    and g': "grad_calls (calls w') = grad_calls (calls w1)
          @ concat (replicate (length fs)
              ([Backward] @ (if truthy cl then [ClipGradNorm (the cl)] else []) @ [Step]))"
    and t': "training w' = training w1" by blast
  show ?case using s f g g' t t' by simp
qed

lemma grad_calls_append [simp]: "grad_calls (xs @ ys) = grad_calls xs @ grad_calls ys"
  by (simp add: grad_calls_def)

lemma grad_calls_print [simp]: "set pl \<subseteq> range PrintLog \<Longrightarrow> grad_calls pl = []"
  by (induction pl) (auto simp: grad_calls_def)

lemma forward_calls_append [simp]:
  "forward_calls (xs @ ys) = forward_calls xs @ forward_calls ys"
  by (simp add: forward_calls_def)

lemma forward_calls_print [simp]: "set pl \<subseteq> range PrintLog \<Longrightarrow> forward_calls pl = []"
  by (induction pl) (auto simp: forward_calls_def)

lemma loss_calls_append [simp]: "loss_calls (xs @ ys) = loss_calls xs @ loss_calls ys"
  by (simp add: loss_calls_def)

lemma loss_calls_print [simp]: "set pl \<subseteq> range PrintLog \<Longrightarrow> loss_calls pl = []"
  by (induction pl) (auto simp: loss_calls_def)

lemma fit_sequence_batch_effect:
  fixes t :: "('a, ('a, 'p, 'g, 'o, 'x, 'pr) world, 'pr, 'v) trainer"
  assumes "fit_sequence_batch c b ((t, w), loc) = Inr ((t', w'), loc')"
  shows "\<exists>r. t' = t\<lparr>log' := log' t @ [r], iteration := iteration t + 1\<rparr>"
    and "\<exists>inp label lengths. b = [inp, label, lengths]
          \<and> grad_calls (calls w') = grad_calls (calls w)
              @ concat (replicate (length (py_range 0 (max_of c lengths) 1))
                  ([Backward] @ (if truthy (clip t) then [ClipGradNorm (the (clip t))] else [])
                   @ [Step]))"
    and "training w' = training w"
proof -
  from assms obtain inp label lengths where b: "b = [inp, label, lengths]"
    by (auto simp: fit_sequence_batch_def split: list.splits)
  define w1 where "w1 = w\<lparr>outside := snd (time_time c (outside w))\<rparr>"
  from frames_effect [of c "clip t" inp label "py_range 0 (max_of c lengths) 1" w1 loc]
  obtain w2 loc2 where
    f: "fold (frame_step c (clip t) inp label) (py_range 0 (max_of c lengths) 1) (w1, loc)
        = (w2, loc2)"
    and g: "grad_calls (calls w2) = grad_calls (calls w1)
          @ concat (replicate (length (py_range 0 (max_of c lengths) 1))
              ([Backward] @ (if truthy (clip t) then [ClipGradNorm (the (clip t))] else [])
               @ [Step]))"
    and tr: "training w2 = training w1" by blast
  define w3 where "w3 = w2\<lparr>outside := snd (time_time c (outside w2))\<rparr>"
  from assms obtain input_frame label_frame pred_frame l where
    loc2: "loc2 = Some (input_frame, label_frame, pred_frame, l)"
    by (cases loc2) (auto simp: fit_sequence_batch_def b call_time_eq w1_def [symmetric] f Let_def)
  define kw :: "(string \<times> 'v pyval) list" where "kw = [(''loss'', PyFloat (item c l)), (''train'', PyBool True),
      (''iter_time'', PyFloat (fst (time_time c (outside w2)) - fst (time_time c (outside w))))]"
  from assms have fin: "end_of_iteration
      (run_callbacks c [input_frame, label_frame] pred_frame kw (t, w3)) = Inr (t', w')"
    by (auto simp: fit_sequence_batch_def b call_time_eq w1_def [symmetric] f Let_def loc2
        w3_def kw_def split: sum.splits)
  from run_callbacks_effect [of c "[input_frame, label_frame]" pred_frame kw t w3]
  obtain r where rc: "run_callbacks c [input_frame, label_frame] pred_frame kw (t, w3)
      = (t\<lparr>log' := log' t @ [r]\<rparr>, w3\<lparr>outside := snd (time_time c (outside w3))\<rparr>)" by blast
  note e = end_of_iteration_effect [OF fin [unfolded rc]]
  show "\<exists>r. t' = t\<lparr>log' := log' t @ [r], iteration := iteration t + 1\<rparr>"
    using e(2) by auto
  have "grad_calls (calls w') = grad_calls (calls w2)"
    using e(3) by (auto simp: w3_def)
  with g have "grad_calls (calls w') = grad_calls (calls w)
              @ concat (replicate (length (py_range 0 (max_of c lengths) 1))
                  ([Backward] @ (if truthy (clip t) then [ClipGradNorm (the (clip t))] else [])
                   @ [Step]))"
    by (simp add: w1_def)
  with b show "\<exists>inp label lengths. b = [inp, label, lengths]
          \<and> grad_calls (calls w') = grad_calls (calls w)
              @ concat (replicate (length (py_range 0 (max_of c lengths) 1))
                  ([Backward] @ (if truthy (clip t) then [ClipGradNorm (the (clip t))] else [])
                   @ [Step]))"
    by blast
  show "training w' = training w"
    using e(3) tr by (auto simp: w3_def w1_def)
qed

lemma run_all_fit_batch:
  assumes "run_all (fit_batch c) bs (t, w) = Inr (t', w')"
  shows "(\<exists>rs. length rs = length bs
            \<and> t' = t\<lparr>log' := log' t @ rs, iteration := iteration t + int (length bs)\<rparr>)
     \<and> training w' = training w
     \<and> (\<exists>segs. calls w' = calls w @ concat segs
          \<and> list_all2 (\<lambda>b seg. \<exists>ps pl. seg =
                [ZeroGrad, Forward b, Loss (forward c (training w) ps b) b, Backward]
                @ (if truthy (clip t) then [ClipGradNorm (the (clip t))] else [])
                @ [Step] @ pl \<and> set pl \<subseteq> range PrintLog) bs segs)"
  using assms
proof (induction bs arbitrary: t w)
  case Nil
  then show ?case by simp
next
  case (Cons b bs)
  from Cons.prems obtain t1 w1 where s1: "fit_batch c b (t, w) = Inr (t1, w1)"
    and rest: "run_all (fit_batch c) bs (t1, w1) = Inr (t', w')"
    by (auto split: sum.splits)
  note e = fit_batch_effect [OF s1]
  from e(1) obtain r where t1: "t1 = t\<lparr>log' := log' t @ [r], iteration := iteration t + 1\<rparr>"
    by blast
  from e(2) obtain pl where c1: "calls w1 = calls w
          @ [ZeroGrad, Forward b, Loss (forward c (training w) (params w) b) b, Backward]
          @ (if truthy (clip t) then [ClipGradNorm (the (clip t))] else [])
          @ [Step] @ pl" and pl: "set pl \<subseteq> range PrintLog" by blast
  from Cons.IH [OF rest] obtain rs segs where
    rs: "length rs = length bs"
    and t': "t' = t1\<lparr>log' := log' t1 @ rs, iteration := iteration t1 + int (length bs)\<rparr>"
    and tr: "training w' = training w1"
    and c': "calls w' = calls w1 @ concat segs"
    and la: "list_all2 (\<lambda>b seg. \<exists>ps pl. seg =
                [ZeroGrad, Forward b, Loss (forward c (training w1) ps b) b, Backward]
                @ (if truthy (clip t1) then [ClipGradNorm (the (clip t1))] else [])
                @ [Step] @ pl \<and> set pl \<subseteq> range PrintLog) bs segs"
    by blast
  let ?seg = "[ZeroGrad, Forward b, Loss (forward c (training w) (params w) b) b, Backward]
          @ (if truthy (clip t) then [ClipGradNorm (the (clip t))] else [])
          @ [Step] @ pl"
  have A: "\<exists>rs. length rs = length (b # bs)
            \<and> t' = t\<lparr>log' := log' t @ rs, iteration := iteration t + int (length (b # bs))\<rparr>"
    by (rule exI [of _ "r # rs"]) (simp add: t' t1 rs)
  have la': "list_all2 (\<lambda>b seg. \<exists>ps pl. seg =
                [ZeroGrad, Forward b, Loss (forward c (training w) ps b) b, Backward]
                @ (if truthy (clip t) then [ClipGradNorm (the (clip t))] else [])
                @ [Step] @ pl \<and> set pl \<subseteq> range PrintLog) (b # bs) (?seg # segs)"
    using la pl e(3) by (auto simp: t1)
  have C: "calls w' = calls w @ concat (?seg # segs)"
    using c' c1 by simp
  from A tr e(3) C la' show ?case by (metis (no_types, lifting))
qed

lemma run_all_test_batch:
  assumes "run_all (test_batch c) bs (t, w) = Inr (t', w')"
  shows "(\<exists>rs. length rs = length bs
            \<and> t' = t\<lparr>log' := log' t @ rs, iteration := iteration t + int (length bs)\<rparr>)
     \<and> training w' = training w \<and> params w' = params w \<and> opt_state w' = opt_state w
     \<and> (\<exists>segs. calls w' = calls w @ concat segs
          \<and> list_all2 (\<lambda>b seg. \<exists>pl. seg =
                [Forward (butlast b),
                 Loss (forward c (training w) (params w) (butlast b)) [last b], Backward]
                @ pl \<and> set pl \<subseteq> range PrintLog) bs segs)"
  using assms
proof (induction bs arbitrary: t w)
  case Nil
  then show ?case by simp
next
  case (Cons b bs)
  from Cons.prems obtain t1 w1 where s1: "test_batch c b (t, w) = Inr (t1, w1)"
    and rest: "run_all (test_batch c) bs (t1, w1) = Inr (t', w')"
    by (auto split: sum.splits)
  note e = test_batch_effect [OF s1]
  from e(1) obtain r where t1: "t1 = t\<lparr>log' := log' t @ [r], iteration := iteration t + 1\<rparr>"
    by blast
  from e(2) obtain pl where c1: "calls w1 = calls w
          @ [Forward (butlast b), Loss (forward c (training w) (params w) (butlast b)) [last b],
             Backward] @ pl" and pl: "set pl \<subseteq> range PrintLog" by blast
  from Cons.IH [OF rest] obtain rs segs where
    rs: "length rs = length bs"
    and t': "t' = t1\<lparr>log' := log' t1 @ rs, iteration := iteration t1 + int (length bs)\<rparr>"
    and tr: "training w' = training w1" "params w' = params w1" "opt_state w' = opt_state w1"
    and c': "calls w' = calls w1 @ concat segs"
    and la: "list_all2 (\<lambda>b seg. \<exists>pl. seg =
                [Forward (butlast b),
                 Loss (forward c (training w1) (params w1) (butlast b)) [last b], Backward]
                @ pl \<and> set pl \<subseteq> range PrintLog) bs segs"
    by blast
  let ?seg = "[Forward (butlast b), Loss (forward c (training w) (params w) (butlast b)) [last b],
             Backward] @ pl"
  have A: "\<exists>rs. length rs = length (b # bs)
            \<and> t' = t\<lparr>log' := log' t @ rs, iteration := iteration t + int (length (b # bs))\<rparr>"
    by (rule exI [of _ "r # rs"]) (simp add: t' t1 rs)
  have la': "list_all2 (\<lambda>b seg. \<exists>pl. seg =
                [Forward (butlast b),
                 Loss (forward c (training w) (params w) (butlast b)) [last b], Backward]
                @ pl \<and> set pl \<subseteq> range PrintLog) (b # bs) (?seg # segs)"
    using la pl e(3,4) by auto
  have C: "calls w' = calls w @ concat (?seg # segs)"
    using c' c1 by simp
  have D: "training w' = training w" "params w' = params w" "opt_state w' = opt_state w"
    using tr e(3,4,5) by simp_all
  from A D C la' show ?case by (metis (no_types, lifting))
qed

lemma run_all_fit_sequence_batch:
  fixes t :: "('a, ('a, 'p, 'g, 'o, 'x, 'pr) world, 'pr, 'v) trainer"
  assumes "run_all (fit_sequence_batch c) bs ((t, w), loc) = Inr ((t', w'), loc')"
  shows "(\<exists>rs. length rs = length bs
            \<and> t' = t\<lparr>log' := log' t @ rs, iteration := iteration t + int (length bs)\<rparr>)
     \<and> training w' = training w
     \<and> grad_calls (calls w') = grad_calls (calls w)
          @ concat (replicate (\<Sum>b\<leftarrow>bs. length (py_range 0 (max_of c (b ! 2)) 1))
              ([Backward] @ (if truthy (clip t) then [ClipGradNorm (the (clip t))] else [])
               @ [Step]))"
  using assms
proof (induction bs arbitrary: t w loc)
  case Nil
  then show ?case by simp
next
  case (Cons b bs)
  from Cons.prems obtain t1 w1 loc1 where
    s1: "fit_sequence_batch c b ((t, w), loc) = Inr ((t1, w1), loc1)"
    and rest: "run_all (fit_sequence_batch c) bs ((t1, w1), loc1) = Inr ((t', w'), loc')"
    by (auto split: sum.splits)
  note e = fit_sequence_batch_effect [OF s1]
  from e(1) obtain r where t1: "t1 = t\<lparr>log' := log' t @ [r], iteration := iteration t + 1\<rparr>"
    by blast
  let ?pat = "[Backward] @ (if truthy (clip t) then [ClipGradNorm (the (clip t))] else [])
               @ [Step]"
  from e(2) have g1: "grad_calls (calls w1) = grad_calls (calls w)
              @ concat (replicate (length (py_range 0 (max_of c (b ! 2)) 1)) ?pat)"
    by auto
  from Cons.IH [OF rest] obtain rs where
    rs: "length rs = length bs"
    and t': "t' = t1\<lparr>log' := log' t1 @ rs, iteration := iteration t1 + int (length bs)\<rparr>"
    and tr: "training w' = training w1"
    and g': "grad_calls (calls w') = grad_calls (calls w1)
          @ concat (replicate (\<Sum>b\<leftarrow>bs. length (py_range 0 (max_of c (b ! 2)) 1))
              ([Backward] @ (if truthy (clip t1) then [ClipGradNorm (the (clip t1))] else [])
               @ [Step]))"
    by blast
  have A: "\<exists>rs. length rs = length (b # bs)
            \<and> t' = t\<lparr>log' := log' t @ rs, iteration := iteration t + int (length (b # bs))\<rparr>"
    by (rule exI [of _ "r # rs"]) (simp add: t' t1 rs)
  have G: "grad_calls (calls w') = grad_calls (calls w)
          @ concat (replicate (\<Sum>b\<leftarrow>b # bs. length (py_range 0 (max_of c (b ! 2)) 1)) ?pat)"
    using g' g1 by (simp add: t1 replicate_add)
  from A tr e(3) G show ?case by simp
qed

lemma fit_cases:
  assumes "fit c args (t, w) = Inr (t', w')"
  obtains args' bs t2 w3 where
    "shuffle c (fst (randint c 0 100000 (outside w))) args = Inr args'"
    and "drain (cast c) (chunks (batchsize t) args' (cuda t)) = Inr bs"
    and "run_all (fit_batch c) bs
           (t\<lparr>iteration := 0\<rparr>,
            record_call (Shuffle (fst (randint c 0 100000 (outside w))))
              ((model_train True w)\<lparr>outside := snd (randint c 0 100000 (outside w))\<rparr>))
         = Inr (t2, w3)"
    and "t' = flush_log (t2\<lparr>epoch := epoch t2 + 1\<rparr>)" and "w' = model_train False w3"
  using assms
  by (auto simp: fit_def Let_def for_each_drain split: prod.splits sum.splits)

lemma test_cases:
  assumes "test c args (t, w) = Inr (t', w')"
  obtains bs t2 w3 where
    "drain (cast c) (chunks (batchsize t) args (cuda t)) = Inr bs"
    and "run_all (test_batch c) bs
           (t\<lparr>iteration := 0\<rparr>, optimizer_zero_grad c (model_train False w)) = Inr (t2, w3)"
    and "t' = flush_log (t2\<lparr>iteration := 0\<rparr>)"
    and "w' = model_train True (optimizer_zero_grad c w3)"
  using assms
  by (auto simp: test_def Let_def for_each_drain split: prod.splits sum.splits)

lemma fit_sequence_cases:
  assumes "fit_sequence c inputs labels lengths (t, w) = Inr (t', w')"
  obtains bs t2 loc where
    "drain (cast c) (chunk_shuffle (batchsize t) [inputs, labels, lengths]) = Inr bs"
    and "run_all (fit_sequence_batch c) bs ((t, w), None) = Inr ((t2, w'), loc)"
    and "t' = flush_log (t2\<lparr>epoch := epoch t2 + 1\<rparr>)"
  using assms
  by (auto simp: fit_sequence_def Let_def for_each_drain split: prod.splits sum.splits)

lemma end_of_iteration_returns:
  "print_every t \<noteq> 0 \<Longrightarrow> \<exists>t' w'. end_of_iteration (t, w) = Inr (t', w')"
  by (simp add: end_of_iteration_def)

lemma run_callbacks_returns:
  "print_every t \<noteq> 0
     \<Longrightarrow> \<exists>t' w'. end_of_iteration (run_callbacks c b p kw (t, w)) = Inr (t', w')"
proof -
  assume pe: "print_every t \<noteq> 0"
  obtain r where "run_callbacks c b p kw (t, w)
      = (t\<lparr>log' := log' t @ [r]\<rparr>, w\<lparr>outside := snd (time_time c (outside w))\<rparr>)"
    using run_callbacks_effect [of c b p kw t w] by blast
  then show ?thesis
    using end_of_iteration_returns [of "t\<lparr>log' := log' t @ [r]\<rparr>"] pe by simp
qed

lemma fit_kwargs_returns:
  "grad_norm t \<longrightarrow> (\<forall>p g. grad_abs_max c p g \<noteq> [])
     \<Longrightarrow> \<exists>kw. fit_kwargs c (grad_norm t) ls w = Inr kw"
  by (cases "grad_abs_max c (params w) (grads w)") (auto simp: fit_kwargs_def Let_def)

lemma fit_batch_returns:
  fixes t :: "('a, ('a, 'p, 'g, 'o, 'x, 'pr) world, 'pr, 'v) trainer"
  assumes "print_every t \<noteq> 0" and "\<forall>l. terms c l \<noteq> []"
    and "grad_norm t \<longrightarrow> (\<forall>p g. grad_abs_max c p g \<noteq> [])"
  shows "\<exists>t' w'. fit_batch c b (t, w) = Inr (t', w')"
proof -
  define pred where "pred = forward c (training w) (params w) b"
  define w4 where "w4 = record_call (Loss pred b) (record_call (Forward b)
      (optimizer_zero_grad c (w\<lparr>outside := snd (time_time c (outside w))\<rparr>)))"
  define l where "l = loss c (training w) (params w) pred b"
  obtain l0 ls where ts: "terms c l = l0 # ls"
    using assms(2) by (cases "terms c l") auto
  define w7 where "w7 = optimizer_step c (clip_if_set c (clip t)
                     (call_backward c (backward_kwargs t) (py_sum c (l0 # ls)) w4))"
  define w8 where "w8 = w7\<lparr>outside := snd (time_time c (outside w7))\<rparr>"
  obtain kw :: "(string \<times> 'v pyval) list"
    where kw: "fit_kwargs c (grad_norm t) (l0 # ls) w8 = Inr kw"
    using fit_kwargs_returns [OF assms(3)] by blast
  have "fit_batch c b (t, w) = end_of_iteration
                   (run_callbacks c b pred
                      ([(''train'', PyBool True),
                        (''iter_time'', PyFloat (fst (time_time c (outside w7))
                            - fst (time_time c (outside w))))] @ kw)
                      (t, w8))"
    using ts kw
    by (simp add: fit_batch_def call_time_eq model_forward_def model_loss_def Let_def
        pred_def w4_def l_def w7_def w8_def)
  then show ?thesis using run_callbacks_returns [OF assms(1)] by simp
qed

lemma run_all_fit_batch_returns:
  fixes t :: "('a, ('a, 'p, 'g, 'o, 'x, 'pr) world, 'pr, 'v) trainer"
  assumes "print_every t \<noteq> 0" and "\<forall>l. terms c l \<noteq> []"
    and "grad_norm t \<longrightarrow> (\<forall>p g. grad_abs_max c p g \<noteq> [])"
  shows "\<exists>t' w'. run_all (fit_batch c) bs (t, w) = Inr (t', w')"
  using assms
proof (induction bs arbitrary: t w)
  case Nil
  show ?case by simp
next
  case (Cons b bs)
  from fit_batch_returns [OF Cons.prems, of b w]
  obtain t1 w1 where s: "fit_batch c b (t, w) = Inr (t1, w1)" by blast
  from fit_batch_effect(1) [OF s] obtain r where
    t1: "t1 = t\<lparr>log' := log' t @ [r], iteration := iteration t + 1\<rparr>" by blast
  have "print_every t1 \<noteq> 0" "grad_norm t1 \<longrightarrow> (\<forall>p g. grad_abs_max c p g \<noteq> [])"
    using Cons.prems by (simp_all add: t1)
  from Cons.IH [OF this(1) Cons.prems(2) this(2), of w1] s show ?case by simp
qed

lemma test_batch_returns:
  fixes t :: "('a, ('a, 'p, 'g, 'o, 'x, 'pr) world, 'pr, 'v) trainer"
  assumes "print_every t \<noteq> 0" and "\<forall>l. terms c l \<noteq> []" and "b \<noteq> []"
  shows "\<exists>t' w'. test_batch c b (t, w) = Inr (t', w')"
proof -
  define pred where "pred = forward c (training w) (params w) (butlast b)"
  define w2 where "w2 = record_call (Loss pred [last b]) (record_call (Forward (butlast b)) w)"
  define l where "l = loss c (training w) (params w) pred [last b]"
  obtain l0 ls where ts: "terms c l = l0 # ls"
    using assms(2) by (cases "terms c l") auto
  have "test_batch c b (t, w) = end_of_iteration
            (run_callbacks c b pred
               [(''train'', PyBool False), (''loss'', PyFloat (item c (py_sum c (l0 # ls))))]
               (t, call_backward c [] (py_sum c (l0 # ls)) w2))"
    using ts assms(3)
    by (simp add: test_batch_def model_forward_def model_loss_def Let_def
        pred_def w2_def l_def)
  then show ?thesis using run_callbacks_returns [OF assms(1)] by simp
qed

lemma run_all_test_batch_returns:
  fixes t :: "('a, ('a, 'p, 'g, 'o, 'x, 'pr) world, 'pr, 'v) trainer"
  assumes "print_every t \<noteq> 0" and "\<forall>l. terms c l \<noteq> []" and "\<forall>b\<in>set bs. b \<noteq> []"
  shows "\<exists>t' w'. run_all (test_batch c) bs (t, w) = Inr (t', w')"
  using assms
proof (induction bs arbitrary: t w)
  case Nil
  show ?case by simp
next
  case (Cons b bs)
  have "b \<noteq> []" using Cons.prems(3) by simp
  from test_batch_returns [OF Cons.prems(1,2) this, of w]
  obtain t1 w1 where s: "test_batch c b (t, w) = Inr (t1, w1)" by blast
  from test_batch_effect(1) [OF s] obtain r where
    t1: "t1 = t\<lparr>log' := log' t @ [r], iteration := iteration t + 1\<rparr>" by blast
  have "print_every t1 \<noteq> 0" using Cons.prems by (simp add: t1)
  moreover have "\<forall>b\<in>set bs. b \<noteq> []" using Cons.prems(3) by simp
  ultimately show ?case using Cons.IH [of t1 w1] Cons.prems(2) s by simp
qed

lemma frames_locals:
  "frames \<noteq> [] \<Longrightarrow> \<exists>w' l. fold (frame_step c cl inp label) frames (w, loc) = (w', Some l)"
proof (induction frames arbitrary: w loc)
  case Nil
  then show ?case by simp
next
  case (Cons f fs)
  from frame_step_effect [of c cl inp label f w loc]
  obtain w1 l1 where s: "frame_step c cl inp label f (w, loc) = (w1, Some l1)" by blast
  show ?case
  proof (cases fs)
    case Nil
    with s show ?thesis by (cases l1) auto
  next
    case (Cons g gs)
    then have "fs \<noteq> []" by simp
    from Cons.IH [OF this, of w1 "Some l1"] s show ?thesis by simp
  qed
qed

lemma py_range_nonempty: "0 < m \<Longrightarrow> py_range 0 m 1 \<noteq> []"
  by (subst py_range.simps) simp

lemma fit_sequence_batch_returns:
  fixes t :: "('a, ('a, 'p, 'g, 'o, 'x, 'pr) world, 'pr, 'v) trainer"
  assumes "print_every t \<noteq> 0" and "0 < max_of c lengths"
  shows "\<exists>t' w' loc'. fit_sequence_batch c [inp, label, lengths] ((t, w), loc)
      = Inr ((t', w'), loc')"
proof -
  define w1 where "w1 = w\<lparr>outside := snd (time_time c (outside w))\<rparr>"
  from frames_locals [OF py_range_nonempty [OF assms(2)], of c "clip t" inp label w1 loc]
  obtain w2 l where f: "fold (frame_step c (clip t) inp label) (py_range 0 (max_of c lengths) 1)
      (w1, loc) = (w2, Some l)" by blast
  obtain input_frame label_frame pred_frame lv where l: "l = (input_frame, label_frame, pred_frame, lv)"
    by (cases l) auto
  define w3 where "w3 = w2\<lparr>outside := snd (time_time c (outside w2))\<rparr>"
  define kw :: "(string \<times> 'v pyval) list" where "kw = [(''loss'', PyFloat (item c lv)), (''train'', PyBool True),
      (''iter_time'', PyFloat (fst (time_time c (outside w2)) - fst (time_time c (outside w))))]"
  from run_callbacks_returns [OF assms(1), of c "[input_frame, label_frame]" pred_frame kw w3]
  obtain t' w' where e: "end_of_iteration
      (run_callbacks c [input_frame, label_frame] pred_frame kw (t, w3)) = Inr (t', w')" by blast
  have "fit_sequence_batch c [inp, label, lengths] ((t, w), loc) = Inr ((t', w'), Some l)"
    using e
    by (simp add: fit_sequence_batch_def call_time_eq w1_def [symmetric] f Let_def l
        w3_def kw_def)
  then show ?thesis by blast
qed

lemma run_all_fit_sequence_batch_returns:
  fixes t :: "('a, ('a, 'p, 'g, 'o, 'x, 'pr) world, 'pr, 'v) trainer"
  assumes "print_every t \<noteq> 0" and "\<forall>v. 0 < max_of c v"
    and "\<forall>b\<in>set bs. \<exists>x y z. b = [x, y, z]"
  shows "\<exists>t' w' loc'. run_all (fit_sequence_batch c) bs ((t, w), loc) = Inr ((t', w'), loc')"
  using assms
proof (induction bs arbitrary: t w loc)
  case Nil
  show ?case by simp
next
  case (Cons b bs)
  from Cons.prems(3) obtain x y z where b: "b = [x, y, z]" by auto
  have "0 < max_of c z" using Cons.prems(2) by simp
  from fit_sequence_batch_returns [OF Cons.prems(1) this, of x y w loc]
  obtain t1 w1 loc1 where s: "fit_sequence_batch c b ((t, w), loc) = Inr ((t1, w1), loc1)"
    unfolding b by blast
  from fit_sequence_batch_effect(1) [OF s] obtain r where
    t1: "t1 = t\<lparr>log' := log' t @ [r], iteration := iteration t + 1\<rparr>" by blast
  have "print_every t1 \<noteq> 0" using Cons.prems by (simp add: t1)
  moreover have "\<forall>b\<in>set bs. \<exists>x y z. b = [x, y, z]" using Cons.prems(3) by simp
  ultimately show ?case using Cons.IH [of t1 w1 loc1] Cons.prems(2) s by simp
qed

lemma drain_chunks_ok:
  assumes "\<forall>b\<in>set as. shape0 b = shape0 a" and "n \<noteq> 0"
  shows "drain cf (Created body n (a # as))
      = Inr (map (\<lambda>i. yielded cf body i n (a # as)) (py_range 0 (shape0 a) n))"
  using assms by (simp add: drain_Created)

lemma fit_returns:
  fixes t :: "('a, ('a, 'p, 'g, 'o, 'x, 'pr) world, 'pr, 'v) trainer"
  assumes "shuffle c (fst (randint c 0 100000 (outside w))) args = Inr (a # as)"
    and "\<forall>b\<in>set as. shape0 b = shape0 a" and "batchsize t \<noteq> 0"
    and "print_every t \<noteq> 0" and "\<forall>l. terms c l \<noteq> []"
    and "grad_norm t \<longrightarrow> (\<forall>p g. grad_abs_max c p g \<noteq> [])"
  shows "\<exists>t' w'. fit c args (t, w) = Inr (t', w')"
proof -
  obtain rs x where rx: "randint c 0 100000 (outside w) = (rs, x)"
    by (cases "randint c 0 100000 (outside w)")
  have sh: "shuffle c rs args = Inr (a # as)" using assms(1) rx by simp
  define bs where "bs = map (\<lambda>i. yielded (cast c) (ChunksBody (cuda t)) i (batchsize t) (a # as))
      (py_range 0 (shape0 a) (batchsize t))"
  define w1 where "w1 = record_call (Shuffle rs) ((model_train True w)\<lparr>outside := x\<rparr>)"
  have d: "drain (cast c) (chunks (batchsize t) (a # as) (cuda t)) = Inr bs"
    unfolding chunks_def bs_def by (rule drain_chunks_ok [OF assms(2,3)])
  have "print_every (t\<lparr>iteration := 0\<rparr>) \<noteq> 0"
    "grad_norm (t\<lparr>iteration := 0\<rparr>) \<longrightarrow> (\<forall>p g. grad_abs_max c p g \<noteq> [])"
    using assms(4,6) by simp_all
  from run_all_fit_batch_returns [OF this(1) assms(5) this(2), of bs w1]
  obtain t2 w3 where r: "run_all (fit_batch c) bs (t\<lparr>iteration := 0\<rparr>, w1) = Inr (t2, w3)"
    by blast
  show ?thesis
    by (simp add: fit_def Let_def rx sh for_each_drain d w1_def [symmetric] r)
qed

lemma test_returns:
  fixes t :: "('a, ('a, 'p, 'g, 'o, 'x, 'pr) world, 'pr, 'v) trainer"
  assumes "\<forall>b\<in>set as. shape0 b = shape0 a" and "batchsize t \<noteq> 0"
    and "print_every t \<noteq> 0" and "\<forall>l. terms c l \<noteq> []"
  shows "\<exists>t' w'. test c (a # as) (t, w) = Inr (t', w')"
proof -
  define bs where "bs = map (\<lambda>i. yielded (cast c) (ChunksBody (cuda t)) i (batchsize t) (a # as))
      (py_range 0 (shape0 a) (batchsize t))"
  define w1 where "w1 = optimizer_zero_grad c (model_train False w)"
  have d: "drain (cast c) (chunks (batchsize t) (a # as) (cuda t)) = Inr bs"
    unfolding chunks_def bs_def by (rule drain_chunks_ok [OF assms(1,2)])
  have ne: "\<forall>b\<in>set bs. b \<noteq> []" unfolding bs_def by (auto simp: Let_def)
  have "print_every (t\<lparr>iteration := 0\<rparr>) \<noteq> 0" using assms(3) by simp
  from run_all_test_batch_returns [OF this assms(4) ne, of w1]
  obtain t2 w3 where r: "run_all (test_batch c) bs (t\<lparr>iteration := 0\<rparr>, w1) = Inr (t2, w3)"
    by blast
  show ?thesis
    by (simp add: test_def Let_def for_each_drain d w1_def [symmetric] r)
qed

lemma fit_sequence_returns:
  fixes t :: "('a, ('a, 'p, 'g, 'o, 'x, 'pr) world, 'pr, 'v) trainer"
  assumes "shape0 labels = shape0 inputs" and "shape0 lengths = shape0 inputs"
    and "batchsize t \<noteq> 0" and "print_every t \<noteq> 0" and "\<forall>v. 0 < max_of c v"
  shows "\<exists>t' w'. fit_sequence c inputs labels lengths (t, w) = Inr (t', w')"
proof -
  define bs where "bs = map (\<lambda>i. yielded (cast c) ChunkShuffleBody i (batchsize t) [inputs, labels, lengths])
      (py_range 0 (shape0 inputs) (batchsize t))"
  have "\<forall>b\<in>set [labels, lengths]. shape0 b = shape0 inputs" using assms(1,2) by simp
  from drain_chunks_ok [OF this assms(3)]
  have d: "drain (cast c) (chunk_shuffle (batchsize t) [inputs, labels, lengths]) = Inr bs"
    unfolding chunk_shuffle_def bs_def .
  have th: "\<forall>b\<in>set bs. \<exists>x y z. b = [x, y, z]" unfolding bs_def by auto
  from run_all_fit_sequence_batch_returns [OF assms(4,5) th, of w None]
  obtain t2 w3 loc where r: "run_all (fit_sequence_batch c) bs ((t, w), None) = Inr ((t2, w3), loc)"
    by blast
  show ?thesis
    by (simp add: fit_sequence_def Let_def for_each_drain d r)
qed

lemma drain_length:
  assumes "drain cf (Created body n (a # as)) = Inr bs" and "0 < n"
  shows "length bs = nat ((shape0 a + n - 1) div n)"
proof -
  have "bs = map (\<lambda>i. yielded cf body i n (a # as)) (py_range 0 (shape0 a) n)"
    using assms by (auto simp: drain_Created split: if_splits)
  then show ?thesis using assms(2) by (simp add: py_range_0)
qed

lemma fit_state:
  assumes "fit c args (t, w) = Inr (t', w')"
  shows "\<exists>args' bs rs.
      shuffle c (fst (randint c 0 100000 (outside w))) args = Inr args'
      \<and> drain (cast c) (chunks (batchsize t) args' (cuda t)) = Inr bs
      \<and> length rs = length bs
      \<and> t' = t\<lparr>previous_log := previous_log t @ log' t @ rs, log' := [],
               epoch := epoch t + 1, iteration := int (length bs)\<rparr>
      \<and> training w' = False"
proof -
  from assms obtain args' bs t2 w3 where
    sh: "shuffle c (fst (randint c 0 100000 (outside w))) args = Inr args'"
    and d: "drain (cast c) (chunks (batchsize t) args' (cuda t)) = Inr bs"
    and r: "run_all (fit_batch c) bs
           (t\<lparr>iteration := 0\<rparr>,
            record_call (Shuffle (fst (randint c 0 100000 (outside w))))
              ((model_train True w)\<lparr>outside := snd (randint c 0 100000 (outside w))\<rparr>))
         = Inr (t2, w3)"
    and t': "t' = flush_log (t2\<lparr>epoch := epoch t2 + 1\<rparr>)" and w': "w' = model_train False w3"
    by (rule fit_cases)
  from run_all_fit_batch [OF r] obtain rs where rs: "length rs = length bs"
    and t2: "t2 = (t\<lparr>iteration := 0\<rparr>)\<lparr>log' := log' (t\<lparr>iteration := 0\<rparr>) @ rs,
        iteration := iteration (t\<lparr>iteration := 0\<rparr>) + int (length bs)\<rparr>"
    by blast
  have "t' = t\<lparr>previous_log := previous_log t @ log' t @ rs, log' := [],
               epoch := epoch t + 1, iteration := int (length bs)\<rparr>"
    by (simp add: t' t2 flush_log_def)
  with sh d rs w' show ?thesis by auto
qed

lemma fit_sequence_state:
  assumes "fit_sequence c inputs labels lengths (t, w) = Inr (t', w')"
  shows "\<exists>bs rs.
      drain (cast c) (chunk_shuffle (batchsize t) [inputs, labels, lengths]) = Inr bs
      \<and> length rs = length bs
      \<and> t' = t\<lparr>previous_log := previous_log t @ log' t @ rs, log' := [],
               epoch := epoch t + 1, iteration := iteration t + int (length bs)\<rparr>
      \<and> training w' = training w"
proof -
  from assms obtain bs t2 loc where
    d: "drain (cast c) (chunk_shuffle (batchsize t) [inputs, labels, lengths]) = Inr bs"
    and r: "run_all (fit_sequence_batch c) bs ((t, w), None) = Inr ((t2, w'), loc)"
    and t': "t' = flush_log (t2\<lparr>epoch := epoch t2 + 1\<rparr>)"
    by (rule fit_sequence_cases)
  from run_all_fit_sequence_batch [OF r] obtain rs where rs: "length rs = length bs"
    and t2: "t2 = t\<lparr>log' := log' t @ rs, iteration := iteration t + int (length bs)\<rparr>"
    and tr: "training w' = training w"
    by blast
  have "t' = t\<lparr>previous_log := previous_log t @ log' t @ rs, log' := [],
               epoch := epoch t + 1, iteration := iteration t + int (length bs)\<rparr>"
    by (simp add: t' t2 flush_log_def)
  with d rs tr show ?thesis by auto
qed

lemma test_state:
  assumes "test c args (t, w) = Inr (t', w')"
  shows "\<exists>bs rs.
      drain (cast c) (chunks (batchsize t) args (cuda t)) = Inr bs
      \<and> length rs = length bs
      \<and> t' = t\<lparr>previous_log := previous_log t @ log' t @ rs, log' := [], iteration := 0\<rparr>
      \<and> training w' = True \<and> params w' = params w \<and> opt_state w' = opt_state w
      \<and> (\<exists>g. grads w' = zero_grad c g)"
proof -
  from assms obtain bs t2 w3 where
    d: "drain (cast c) (chunks (batchsize t) args (cuda t)) = Inr bs"
    and r: "run_all (test_batch c) bs
           (t\<lparr>iteration := 0\<rparr>, optimizer_zero_grad c (model_train False w)) = Inr (t2, w3)"
    and t': "t' = flush_log (t2\<lparr>iteration := 0\<rparr>)"
    and w': "w' = model_train True (optimizer_zero_grad c w3)"
    by (rule test_cases)
  from run_all_test_batch [OF r] obtain rs where rs: "length rs = length bs"
    and t2: "t2 = (t\<lparr>iteration := 0\<rparr>)\<lparr>log' := log' (t\<lparr>iteration := 0\<rparr>) @ rs,
        iteration := iteration (t\<lparr>iteration := 0\<rparr>) + int (length bs)\<rparr>"
    and p: "params w3 = params (optimizer_zero_grad c (model_train False w))"
      "opt_state w3 = opt_state (optimizer_zero_grad c (model_train False w))"
    by blast
  have "t' = t\<lparr>previous_log := previous_log t @ log' t @ rs, log' := [], iteration := 0\<rparr>"
    by (simp add: t' t2 flush_log_def)
  moreover have "grads w' = zero_grad c (grads w3)" by (simp add: w')
  ultimately show ?thesis using d rs p w' by auto
qed

lemma fit_trace:
  assumes "fit c args (t, w) = Inr (t', w')"
  shows "\<exists>args' bs segs.
      shuffle c (fst (randint c 0 100000 (outside w))) args = Inr args'
      \<and> drain (cast c) (chunks (batchsize t) args' (cuda t)) = Inr bs
      \<and> calls w' = calls w @ [Train True, Shuffle (fst (randint c 0 100000 (outside w)))]
            @ concat segs @ [Train False]
      \<and> list_all2 (\<lambda>b seg. \<exists>ps pl. seg =
                [ZeroGrad, Forward b, Loss (forward c True ps b) b, Backward]
                @ (if truthy (clip t) then [ClipGradNorm (the (clip t))] else [])
                @ [Step] @ pl \<and> set pl \<subseteq> range PrintLog) bs segs"
proof -
  from assms obtain args' bs t2 w3 where
    sh: "shuffle c (fst (randint c 0 100000 (outside w))) args = Inr args'"
    and d: "drain (cast c) (chunks (batchsize t) args' (cuda t)) = Inr bs"
    and r: "run_all (fit_batch c) bs
           (t\<lparr>iteration := 0\<rparr>,
            record_call (Shuffle (fst (randint c 0 100000 (outside w))))
              ((model_train True w)\<lparr>outside := snd (randint c 0 100000 (outside w))\<rparr>))
         = Inr (t2, w3)"
    and w': "w' = model_train False w3"
    by (rule fit_cases)
  from run_all_fit_batch [OF r] obtain segs where
    c3: "calls w3 = calls (record_call (Shuffle (fst (randint c 0 100000 (outside w))))
              ((model_train True w)\<lparr>outside := snd (randint c 0 100000 (outside w))\<rparr>))
          @ concat segs"
    and la: "list_all2 (\<lambda>b seg. \<exists>ps pl. seg =
                [ZeroGrad, Forward b,
                 Loss (forward c (training (record_call (Shuffle (fst (randint c 0 100000 (outside w))))
              ((model_train True w)\<lparr>outside := snd (randint c 0 100000 (outside w))\<rparr>))) ps b) b,
                 Backward]
                @ (if truthy (clip (t\<lparr>iteration := 0\<rparr>))
                   then [ClipGradNorm (the (clip (t\<lparr>iteration := 0\<rparr>)))] else [])
                @ [Step] @ pl \<and> set pl \<subseteq> range PrintLog) bs segs"
    by blast
  have "calls w' = calls w @ [Train True, Shuffle (fst (randint c 0 100000 (outside w)))]
            @ concat segs @ [Train False]"
    by (simp add: w' c3)
  moreover have "list_all2 (\<lambda>b seg. \<exists>ps pl. seg =
                [ZeroGrad, Forward b, Loss (forward c True ps b) b, Backward]
                @ (if truthy (clip t) then [ClipGradNorm (the (clip t))] else [])
                @ [Step] @ pl \<and> set pl \<subseteq> range PrintLog) bs segs"
  proof -
    have eqs: "training (record_call (Shuffle (fst (randint c 0 100000 (outside w))))
              ((model_train True w)\<lparr>outside := snd (randint c 0 100000 (outside w))\<rparr>)) = True"
      "clip (t\<lparr>iteration := 0\<rparr>) = clip t"
      by simp_all
    show ?thesis using la unfolding eqs .
  qed
  ultimately show ?thesis using sh d by blast
qed

lemma test_trace:
  assumes "test c args (t, w) = Inr (t', w')"
  shows "\<exists>bs segs.
      drain (cast c) (chunks (batchsize t) args (cuda t)) = Inr bs
      \<and> calls w' = calls w @ [Train False, ZeroGrad] @ concat segs @ [ZeroGrad, Train True]
      \<and> list_all2 (\<lambda>b seg. \<exists>pl. seg =
                [Forward (butlast b), Loss (forward c False (params w) (butlast b)) [last b],
                 Backward] @ pl \<and> set pl \<subseteq> range PrintLog) bs segs"
proof -
  from assms obtain bs t2 w3 where
    d: "drain (cast c) (chunks (batchsize t) args (cuda t)) = Inr bs"
    and r: "run_all (test_batch c) bs
           (t\<lparr>iteration := 0\<rparr>, optimizer_zero_grad c (model_train False w)) = Inr (t2, w3)"
    and w': "w' = model_train True (optimizer_zero_grad c w3)"
    by (rule test_cases)
  from run_all_test_batch [OF r] obtain segs where
    c3: "calls w3 = calls (optimizer_zero_grad c (model_train False w)) @ concat segs"
    and la: "list_all2 (\<lambda>b seg. \<exists>pl. seg =
                [Forward (butlast b),
                 Loss (forward c (training (optimizer_zero_grad c (model_train False w)))
                   (params (optimizer_zero_grad c (model_train False w))) (butlast b)) [last b],
                 Backward] @ pl \<and> set pl \<subseteq> range PrintLog) bs segs"
    by blast
  have "calls w' = calls w @ [Train False, ZeroGrad] @ concat segs @ [ZeroGrad, Train True]"
    by (simp add: w' c3)
  moreover have "list_all2 (\<lambda>b seg. \<exists>pl. seg =
                [Forward (butlast b), Loss (forward c False (params w) (butlast b)) [last b],
                 Backward] @ pl \<and> set pl \<subseteq> range PrintLog) bs segs"
  proof -
    have eqs: "training (optimizer_zero_grad c (model_train False w)) = False"
      "params (optimizer_zero_grad c (model_train False w)) = params w"
      by simp_all
    show ?thesis using la unfolding eqs .
  qed
  ultimately show ?thesis using d by blast
qed

lemma fit_sequence_trace:
  fixes t :: "('a, ('a, 'p, 'g, 'o, 'x, 'pr) world, 'pr, 'v) trainer"
  assumes "fit_sequence c inputs labels lengths (t, w) = Inr (t', w')"
  shows "\<exists>bs.
      drain (cast c) (chunk_shuffle (batchsize t) [inputs, labels, lengths]) = Inr bs
      \<and> grad_calls (calls w') = grad_calls (calls w)
          @ concat (replicate (\<Sum>b\<leftarrow>bs. length (py_range 0 (max_of c (b ! 2)) 1))
              ([Backward] @ (if truthy (clip t) then [ClipGradNorm (the (clip t))] else [])
               @ [Step]))"
proof -
  from assms obtain bs t2 loc where
    d: "drain (cast c) (chunk_shuffle (batchsize t) [inputs, labels, lengths]) = Inr bs"
    and r: "run_all (fit_sequence_batch c) bs ((t, w), None) = Inr ((t2, w'), loc)"
    by (rule fit_sequence_cases)
  from run_all_fit_sequence_batch [OF r] d show ?thesis by blast
qed

lemma forward_calls_simps [simp]:
  "forward_calls [] = []" "forward_calls (e # tr) = forward_args e @ forward_calls tr"
  by (simp_all add: forward_calls_def)

lemma loss_calls_simps [simp]:
  "loss_calls [] = []" "loss_calls (e # tr) = loss_args e @ loss_calls tr"
  by (simp_all add: loss_calls_def)

lemma grad_calls_simps [simp]:
  "grad_calls [] = []"
  "grad_calls (e # tr) = (if is_grad_call e then e # grad_calls tr else grad_calls tr)"
  by (simp_all add: grad_calls_def)


lemma fit_segments:
  assumes "list_all2 (\<lambda>b seg. \<exists>ps pl. seg =
                [ZeroGrad, Forward b, Loss (f ps b) b, Backward] @ cl @ [Step] @ pl
                \<and> set pl \<subseteq> range PrintLog) bs segs"
    and "grad_calls cl = cl" and "forward_calls cl = []" and "loss_calls cl = []"
  shows "forward_calls (concat segs) = bs"
    and "grad_calls (concat segs) = concat (replicate (length bs) ([Backward] @ cl @ [Step]))"
    and "\<exists>preds. length preds = length bs \<and> loss_calls (concat segs) = zip preds bs
          \<and> list_all2 (\<lambda>p b. \<exists>ps. p = f ps b) preds bs"
  using assms(1)
proof (induction rule: list_all2_induct)
  case Nil
  { case 1 show ?case by simp }
  { case 2 show ?case by simp }
  { case 3 show ?case by simp }
next
  case (Cons b bs seg segs)
  from Cons(1) obtain ps pl where seg: "seg =
      [ZeroGrad, Forward b, Loss (f ps b) b, Backward] @ cl @ [Step] @ pl"
    and pl: "set pl \<subseteq> range PrintLog" by blast
  have fs: "forward_calls seg = [b]"
    unfolding seg using pl assms(3) by simp
  have gs: "grad_calls seg = [Backward] @ cl @ [Step]"
    unfolding seg using pl assms(2) by simp
  have ls: "loss_calls seg = [(f ps b, b)]"
    unfolding seg using pl assms(4) by simp
  { case 1 show ?case using Cons(3) fs by simp }
  { case 2 show ?case using Cons(4) gs by simp }
  { case 3
    from Cons(5) obtain preds where p: "length preds = length bs"
      "loss_calls (concat segs) = zip preds bs" "list_all2 (\<lambda>p b. \<exists>ps. p = f ps b) preds bs"
      by blast
    show ?case
      by (rule exI [of _ "f ps b # preds"]) (use p ls in auto) }
qed

lemma test_segments:
  assumes "list_all2 (\<lambda>b seg. \<exists>pl. seg =
                [Forward (butlast b), Loss (g b) [last b], Backward] @ pl
                \<and> set pl \<subseteq> range PrintLog) bs segs"
  shows "forward_calls (concat segs) = map butlast bs"
    and "loss_calls (concat segs) = map (\<lambda>b. (g b, [last b])) bs"
    and "grad_calls (concat segs) = replicate (length bs) Backward"
    and "Step \<notin> set (concat segs)"
  using assms
proof (induction rule: list_all2_induct)
  case Nil
  { case 1 show ?case by simp }
  { case 2 show ?case by simp }
  { case 3 show ?case by simp }
  { case 4 show ?case by simp }
next
  case (Cons b bs seg segs)
  from Cons(1) obtain pl where seg: "seg =
      [Forward (butlast b), Loss (g b) [last b], Backward] @ pl"
    and pl: "set pl \<subseteq> range PrintLog" by blast
  have st: "Step \<notin> set seg" unfolding seg using pl by auto
  { case 1 show ?case using Cons(3) pl by (simp add: seg) }
  { case 2 show ?case using Cons(4) pl by (simp add: seg) }
  { case 3 show ?case using Cons(5) pl by (simp add: seg) }
  { case 4 show ?case using Cons(6) st by simp }
qed

lemma fit_batch_seed:
  "fit_batch c b (t\<lparr>seed := s\<rparr>, w)
     = (case fit_batch c b (t, w) of Inl e \<Rightarrow> Inl e | Inr (t', w') \<Rightarrow> Inr (t'\<lparr>seed := s\<rparr>, w'))"
  by (simp add: fit_batch_def run_callbacks_def end_of_iteration_def call_time_eq
      model_forward_def model_loss_def Let_def split: list.splits sum.splits)

lemma run_all_fit_batch_seed:
  "run_all (fit_batch c) bs (t\<lparr>seed := s\<rparr>, w)
     = (case run_all (fit_batch c) bs (t, w) of
          Inl e \<Rightarrow> Inl e | Inr (t', w') \<Rightarrow> Inr (t'\<lparr>seed := s\<rparr>, w'))"
proof (induction bs arbitrary: t w)
  case Nil
  show ?case by simp
next
  case (Cons b bs)
  show ?case
    by (simp add: fit_batch_seed Cons.IH split: sum.splits prod.splits)
qed

lemma fit_seed:
  "fit c args (t\<lparr>seed := s\<rparr>, w)
     = (case fit c args (t, w) of Inl e \<Rightarrow> Inl e | Inr (t', w') \<Rightarrow> Inr (t'\<lparr>seed := s\<rparr>, w'))"
proof -
  obtain rs x where rx: "randint c 0 100000 (outside w) = (rs, x)"
    by (cases "randint c 0 100000 (outside w)")
  define w1 where "w1 = record_call (Shuffle rs) ((model_train True w)\<lparr>outside := x\<rparr>)"
  show ?thesis
  proof (cases "shuffle c rs args")
    case (Inl e)
    then show ?thesis by (simp add: fit_def Let_def rx)
  next
    case (Inr args')
    note sh = this
    show ?thesis
    proof (cases "drain (cast c) (chunks (batchsize t) args' (cuda t))")
      case (Inl e)
      then show ?thesis by (simp add: fit_def Let_def rx sh for_each_drain)
    next
      case (Inr bs)
      define R where "R = run_all (fit_batch c) bs (t\<lparr>iteration := 0\<rparr>, w1)"
      have "run_all (fit_batch c) bs ((t\<lparr>iteration := 0\<rparr>)\<lparr>seed := s\<rparr>, w1)
          = (case R of Inl e \<Rightarrow> Inl e | Inr (t', w') \<Rightarrow> Inr (t'\<lparr>seed := s\<rparr>, w'))"
        unfolding R_def by (rule run_all_fit_batch_seed)
      moreover have "t\<lparr>seed := s, iteration := 0\<rparr> = (t\<lparr>iteration := 0\<rparr>)\<lparr>seed := s\<rparr>"
        by simp
      ultimately have L: "run_all (fit_batch c) bs (t\<lparr>seed := s, iteration := 0\<rparr>, w1)
          = (case R of Inl e \<Rightarrow> Inl e | Inr (t', w') \<Rightarrow> Inr (t'\<lparr>seed := s\<rparr>, w'))"
        by (simp only:)
      have A: "fit c args (t\<lparr>seed := s\<rparr>, w)
          = (case run_all (fit_batch c) bs (t\<lparr>seed := s, iteration := 0\<rparr>, w1) of
               Inl e \<Rightarrow> Inl e
             | Inr (t2, w3) \<Rightarrow> Inr (flush_log (t2\<lparr>epoch := epoch t2 + 1\<rparr>), model_train False w3))"
        by (simp add: fit_def Let_def rx sh for_each_drain Inr w1_def)
      have B: "fit c args (t, w)
          = (case R of
               Inl e \<Rightarrow> Inl e
             | Inr (t2, w3) \<Rightarrow> Inr (flush_log (t2\<lparr>epoch := epoch t2 + 1\<rparr>), model_train False w3))"
        by (simp add: fit_def Let_def rx sh for_each_drain Inr w1_def R_def)
      show ?thesis unfolding A B L
        by (cases R) (auto simp: flush_log_def)
    qed
  qed
qed

lemma demo_shuffle:
  "shuffle demo rs [demo_X, demo_Y]
     = Inr [demo_X\<lparr>rows := rotate (nat rs) (rows demo_X)\<rparr>,
            demo_Y\<lparr>rows := rotate (nat rs) (rows demo_Y)\<rparr>]"
  by (simp add: demo_def)

lemma demo_terms [simp]: "terms demo l \<noteq> []" "cast demo = (\<lambda>t x. x)" "0 < max_of demo v"
  by (simp_all add: demo_def)

lemma demo_trainer_fields [simp]:
  "print_every demo_trainer = 25" "batchsize demo_trainer = 30" "grad_norm demo_trainer = False"
  "clip demo_trainer = None" "cuda demo_trainer = False" "epoch demo_trainer = 0"
  "iteration demo_trainer = 0" "log' demo_trainer = []" "previous_log demo_trainer = []"
  "seed demo_trainer = 42"
  by (simp_all add: demo_trainer_def Trainer_default_def Trainer_def)

lemma demo_shapes [simp]: "shape0 demo_X = 100" "shape0 demo_Y = 100"
  by (simp_all add: demo_X_def demo_Y_def shape0_def)

lemma demo_fit_returns:
  fixes t :: "(int, (int, int, int, nat, nat, int) world, int, 'v) trainer"
  assumes "batchsize t \<noteq> 0" and "print_every t \<noteq> 0" and "\<not> grad_norm t"
  shows "\<exists>t' w'. fit demo [demo_X, demo_Y] (t, w) = Inr (t', w')"
proof (rule fit_returns)
  show "shuffle demo (fst (randint demo 0 100000 (outside w))) [demo_X, demo_Y]
     = Inr (demo_X\<lparr>rows := rotate (nat (fst (randint demo 0 100000 (outside w)))) (rows demo_X)\<rparr>
            # [demo_Y\<lparr>rows := rotate (nat (fst (randint demo 0 100000 (outside w)))) (rows demo_Y)\<rparr>])"
    by (rule demo_shuffle)
  show "\<forall>b\<in>set [demo_Y\<lparr>rows := rotate (nat (fst (randint demo 0 100000 (outside w)))) (rows demo_Y)\<rparr>].
      shape0 b = shape0 (demo_X\<lparr>rows := rotate (nat (fst (randint demo 0 100000 (outside w)))) (rows demo_X)\<rparr>)"
    by (simp add: shape0_def demo_X_def demo_Y_def)
  show "batchsize t \<noteq> 0" "print_every t \<noteq> 0" by fact+
  show "\<forall>l. terms demo l \<noteq> []" by simp
  show "grad_norm t \<longrightarrow> (\<forall>p g. grad_abs_max demo p g \<noteq> [])" using assms(3) by simp
qed

lemma demo_fit_batches:
  assumes "shuffle demo rs [demo_X, demo_Y] = Inr args'"
    and "drain (cast demo) (chunks 30 args' cu) = Inr bs"
  shows "length bs = 4"
proof -
  have a: "args' = demo_X\<lparr>rows := rotate (nat rs) (rows demo_X)\<rparr>
            # [demo_Y\<lparr>rows := rotate (nat rs) (rows demo_Y)\<rparr>]"
    using assms(1) by (simp add: demo_shuffle)
  have "length bs = nat ((shape0 (demo_X\<lparr>rows := rotate (nat rs) (rows demo_X)\<rparr>) + 30 - 1) div 30)"
    using assms(2) unfolding a chunks_def by (rule drain_length) simp
  then show ?thesis by (simp add: shape0_def demo_X_def)
qed

lemma demo_test_returns:
  fixes t :: "(int, (int, int, int, nat, nat, int) world, int, 'v) trainer"
  assumes "batchsize t \<noteq> 0" and "print_every t \<noteq> 0"
  shows "\<exists>t' w'. test demo [demo_X, demo_Y] (t, w) = Inr (t', w')"
  by (rule test_returns) (use assms in simp_all)

lemma demo_test_batches:
  assumes "drain (cast demo) (chunks 30 [demo_X, demo_Y] cu) = Inr bs"
  shows "length bs = 4"
proof -
  have "length bs = nat ((shape0 demo_X + 30 - 1) div 30)"
    using assms unfolding chunks_def by (rule drain_length) simp
  then show ?thesis by simp
qed

lemma demo_fit_sequence_returns:
  fixes t :: "(int, (int, int, int, nat, nat, int) world, int, 'v) trainer"
  assumes "batchsize t \<noteq> 0" and "print_every t \<noteq> 0"
  shows "\<exists>t' w'. fit_sequence demo demo_X demo_Y demo_Y (t, w) = Inr (t', w')"
  by (rule fit_sequence_returns) (use assms in simp_all)

lemma demo_fit_sequence_batches:
  assumes "drain (cast demo) (chunk_shuffle 30 [demo_X, demo_Y, demo_Y]) = Inr bs"
  shows "length bs = 4"
proof -
  have "length bs = nat ((shape0 demo_X + 30 - 1) div 30)"
    using assms unfolding chunk_shuffle_def by (rule drain_length) simp
  then show ?thesis by simp
qed

section \<open>The claims about the Trainer\<close>

text \<open>
  Claim C1, amended. After a call of \<open>fit\<close> that returns, the iteration counter equals
  the number of batches consumed during the call, the epoch counter has grown by exactly
  one, the current log is empty, and the history has grown by the records that were in the
  current log when the call began followed by one new record per batch; so it has grown
  by exactly the batch count when the current log was empty at the start, as it is after
  construction and after every completed pass.
\<close>

theorem fit_counters:
  assumes "fit c args (t, w) = Inr (t', w')"
  shows "\<exists>args' bs rs.
      shuffle c (fst (randint c 0 100000 (outside w))) args = Inr args'
      \<and> drain (cast c) (chunks (batchsize t) args' (cuda t)) = Inr bs
      \<and> iteration t' = int (length bs) \<and> epoch t' = epoch t + 1 \<and> log' t' = []
      \<and> length rs = length bs \<and> previous_log t' = previous_log t @ log' t @ rs
      \<and> length (previous_log t') = length (previous_log t) + length (log' t) + length bs"
proof -
  from fit_state [OF assms] obtain args' bs rs where
    sh: "shuffle c (fst (randint c 0 100000 (outside w))) args = Inr args'"
    and d: "drain (cast c) (chunks (batchsize t) args' (cuda t)) = Inr bs"
    and rs: "length rs = length bs"
    and t': "t' = t\<lparr>previous_log := previous_log t @ log' t @ rs, log' := [],
               epoch := epoch t + 1, iteration := int (length bs)\<rparr>"
    by blast
  have "iteration t' = int (length bs)" "epoch t' = epoch t + 1" "log' t' = []"
    "previous_log t' = previous_log t @ log' t @ rs"
    by (simp_all add: t')
  moreover from this(4) rs
  have "length (previous_log t') = length (previous_log t) + length (log' t) + length bs"
    by simp
  ultimately show ?thesis using sh d rs by blast
qed

text \<open>
  The example of the specification: 100 rows, batch size 30, a Trainer just constructed.
\<close>

theorem fit_counters_witness:
  "\<exists>t' w'. fit demo [demo_X, demo_Y] (demo_trainer, demo_world) = Inr (t', w')
     \<and> iteration t' = 4 \<and> epoch t' = 1 \<and> log' t' = [] \<and> length (previous_log t') = 4"
proof -
  obtain t' w' where f: "fit demo [demo_X, demo_Y] (demo_trainer, demo_world) = Inr (t', w')"
    using demo_fit_returns [of demo_trainer demo_world] by auto
  from fit_counters [OF f] obtain args' bs where
    sh: "shuffle demo (fst (randint demo 0 100000 (outside demo_world))) [demo_X, demo_Y]
        = Inr args'"
    and d: "drain (cast demo) (chunks (batchsize demo_trainer) args' (cuda demo_trainer)) = Inr bs"
    and r: "iteration t' = int (length bs)" "epoch t' = epoch demo_trainer + 1" "log' t' = []"
      "length (previous_log t')
        = length (previous_log demo_trainer) + length (log' demo_trainer) + length bs"
    by blast
  have "length bs = 4" using demo_fit_batches [OF sh] d by simp
  with f r show ?thesis by simp
qed

text \<open>
  Claim C1 as stated fails for a Trainer whose current log is not empty: after one call of
  \<open>run_callbacks\<close> on a new Trainer, \<open>fit\<close> consumes 4 batches and the history, empty
  before, holds 5 records.
\<close>

theorem fit_history_counterexample:
  "\<exists>t' w'. fit demo [demo_X, demo_Y]
        (fst (run_callbacks demo [] 0 [] (demo_trainer, demo_world)), demo_world) = Inr (t', w')
     \<and> previous_log (fst (run_callbacks demo [] 0 [] (demo_trainer, demo_world))) = []
     \<and> iteration t' = 4 \<and> length (previous_log t') = 5"
proof -
  obtain r where rc: "run_callbacks demo [] 0 [] (demo_trainer, demo_world)
      = (demo_trainer\<lparr>log' := log' demo_trainer @ [r]\<rparr>,
         demo_world\<lparr>outside := snd (time_time demo (outside demo_world))\<rparr>)"
    using run_callbacks_effect [of demo "[]" 0 "[]" demo_trainer demo_world] by blast
  define t1 where "t1 = demo_trainer\<lparr>log' := log' demo_trainer @ [r]\<rparr>"
  have t1: "fst (run_callbacks demo [] 0 [] (demo_trainer, demo_world)) = t1"
    by (simp add: rc t1_def)
  have f1: "batchsize t1 = 30" "print_every t1 = 25" "\<not> grad_norm t1" "cuda t1 = False"
    "previous_log t1 = []" "length (log' t1) = 1"
    by (simp_all add: t1_def)
  obtain t' w' where f: "fit demo [demo_X, demo_Y] (t1, demo_world) = Inr (t', w')"
    using demo_fit_returns [of t1 demo_world] f1 by auto
  from fit_state [OF f] obtain args' bs rs where
    sh: "shuffle demo (fst (randint demo 0 100000 (outside demo_world))) [demo_X, demo_Y]
        = Inr args'"
    and d: "drain (cast demo) (chunks (batchsize t1) args' (cuda t1)) = Inr bs"
    and rs: "length rs = length bs"
    and t': "t' = t1\<lparr>previous_log := previous_log t1 @ log' t1 @ rs, log' := [],
               epoch := epoch t1 + 1, iteration := int (length bs)\<rparr>"
    by blast
  have "length bs = 4" using demo_fit_batches [OF sh] d f1 by simp
  then have "iteration t' = 4" "length (previous_log t') = 5"
    using rs f1 by (simp_all add: t')
  with f f1 show ?thesis unfolding t1 by simp
qed

text \<open>
  Claim C4 at a failing input. A new Trainer runs \<open>fit\<close> over 4 batches and then
  \<open>fit_sequence\<close> over 4 batches: \<open>fit_sequence\<close> does not reset the iteration counter,
  which goes on from 4 to 8.
\<close>

theorem fit_sequence_keeps_iteration:
  "\<exists>t1 w1 t2 w2. fit demo [demo_X, demo_Y] (demo_trainer, demo_world) = Inr (t1, w1)
     \<and> iteration t1 = 4
     \<and> fit_sequence demo demo_X demo_Y demo_Y (t1, w1) = Inr (t2, w2)
     \<and> iteration t2 = 8"
proof -
  obtain t1 w1 where f: "fit demo [demo_X, demo_Y] (demo_trainer, demo_world) = Inr (t1, w1)"
    using demo_fit_returns [of demo_trainer demo_world] by auto
  from fit_state [OF f] obtain args' bs rs where
    sh: "shuffle demo (fst (randint demo 0 100000 (outside demo_world))) [demo_X, demo_Y]
        = Inr args'"
    and d: "drain (cast demo) (chunks (batchsize demo_trainer) args' (cuda demo_trainer)) = Inr bs"
    and t1: "t1 = demo_trainer\<lparr>previous_log := previous_log demo_trainer @ log' demo_trainer @ rs,
               log' := [], epoch := epoch demo_trainer + 1, iteration := int (length bs)\<rparr>"
    by blast
  have l4: "length bs = 4" using demo_fit_batches [OF sh] d by simp
  have f1: "batchsize t1 = 30" "print_every t1 = 25" "iteration t1 = 4"
    using l4 by (simp_all add: t1)
  obtain t2 w2 where g: "fit_sequence demo demo_X demo_Y demo_Y (t1, w1) = Inr (t2, w2)"
    using demo_fit_sequence_returns [of t1 w1] f1 by auto
  from fit_sequence_state [OF g] obtain bs2 rs2 where
    d2: "drain (cast demo) (chunk_shuffle (batchsize t1) [demo_X, demo_Y, demo_Y]) = Inr bs2"
    and t2: "t2 = t1\<lparr>previous_log := previous_log t1 @ log' t1 @ rs2, log' := [],
               epoch := epoch t1 + 1, iteration := iteration t1 + int (length bs2)\<rparr>"
    by blast
  have "length bs2 = 4" using demo_fit_sequence_batches d2 f1 by simp
  then have "iteration t2 = 8" using f1 by (simp add: t2)
  with f g f1 show ?thesis by blast
qed

text \<open>
  Claim C5, amended. After a call of \<open>fit\<close> that returns, the model is left in eval mode:
  the last call \<open>fit\<close> makes is \<open>model.train(False)\<close>.
\<close>

theorem fit_leaves_eval_mode:
  assumes "fit c args (t, w) = Inr (t', w')"
  shows "training w' = False \<and> (\<exists>tr. calls w' = tr @ [Train False])"
proof -
  from fit_state [OF assms] have "training w' = False" by blast
  moreover from fit_trace [OF assms] obtain segs where
    "calls w' = calls w @ [Train True, Shuffle (fst (randint c 0 100000 (outside w)))]
            @ concat segs @ [Train False]" by blast
  then have "calls w' = (calls w @ [Train True, Shuffle (fst (randint c 0 100000 (outside w)))]
            @ concat segs) @ [Train False]" by simp
  ultimately show ?thesis by blast
qed

theorem fit_leaves_eval_mode_witness:
  "\<exists>t' w'. fit demo [demo_X, demo_Y] (demo_trainer, demo_world) = Inr (t', w')
     \<and> training w' = False \<and> last (calls w') = Train False"
proof -
  obtain t' w' where f: "fit demo [demo_X, demo_Y] (demo_trainer, demo_world) = Inr (t', w')"
    using demo_fit_returns [of demo_trainer demo_world] by auto
  from fit_leaves_eval_mode [OF f] obtain tr where
    "training w' = False" "calls w' = tr @ [Train False]" by blast
  with f show ?thesis by simp
qed

text \<open>
  Claim C5 as stated: the model is in train mode before the call and is not after it.
\<close>

theorem fit_train_mode_counterexample:
  "\<exists>t' w'. fit demo [demo_X, demo_Y] (demo_trainer, demo_world) = Inr (t', w')
     \<and> training demo_world \<and> \<not> training w'"
proof -
  obtain t' w' where f: "fit demo [demo_X, demo_Y] (demo_trainer, demo_world) = Inr (t', w')"
    using demo_fit_returns [of demo_trainer demo_world] by auto
  from fit_state [OF f] have "training w' = False" by blast
  with f show ?thesis by (auto simp: demo_world_def)
qed

text \<open>
  Claim C6, amended. The epoch counter never decreases; a completed \<open>fit\<close> or
  \<open>fit_sequence\<close> pass increments it by exactly one, and a completed \<open>test\<close> pass leaves
  it unchanged.
\<close>

theorem epoch_counter:
  "(fit c args (t, w) = Inr (t', w') \<longrightarrow> epoch t' = epoch t + 1 \<and> epoch t \<le> epoch t')
   \<and> (fit_sequence c inputs labels lengths (t, w) = Inr (t', w')
        \<longrightarrow> epoch t' = epoch t + 1 \<and> epoch t \<le> epoch t')
   \<and> (test c args (t, w) = Inr (t', w') \<longrightarrow> epoch t' = epoch t \<and> epoch t \<le> epoch t')"
proof (intro conjI impI)
  assume "fit c args (t, w) = Inr (t', w')"
  from fit_state [OF this] show "epoch t' = epoch t + 1" by auto
  then show "epoch t \<le> epoch t'" by simp
next
  assume "fit_sequence c inputs labels lengths (t, w) = Inr (t', w')"
  from fit_sequence_state [OF this] show "epoch t' = epoch t + 1" by auto
  then show "epoch t \<le> epoch t'" by simp
next
  assume "test c args (t, w) = Inr (t', w')"
  from test_state [OF this] show "epoch t' = epoch t" by auto
  then show "epoch t \<le> epoch t'" by simp
qed

theorem epoch_counter_witness:
  "\<exists>ta wa tb wb tc wc.
      fit demo [demo_X, demo_Y] (demo_trainer, demo_world) = Inr (ta, wa) \<and> epoch ta = 1
    \<and> fit_sequence demo demo_X demo_Y demo_Y (demo_trainer, demo_world) = Inr (tb, wb)
    \<and> epoch tb = 1
    \<and> test demo [demo_X, demo_Y] (demo_trainer, demo_world) = Inr (tc, wc) \<and> epoch tc = 0"
proof -
  obtain ta wa where a: "fit demo [demo_X, demo_Y] (demo_trainer, demo_world) = Inr (ta, wa)"
    using demo_fit_returns [of demo_trainer demo_world] by auto
  obtain tb wb where b: "fit_sequence demo demo_X demo_Y demo_Y (demo_trainer, demo_world)
      = Inr (tb, wb)"
    using demo_fit_sequence_returns [of demo_trainer demo_world] by auto
  obtain tc wc where c: "test demo [demo_X, demo_Y] (demo_trainer, demo_world) = Inr (tc, wc)"
    using demo_test_returns [of demo_trainer demo_world] by auto
  have "epoch ta = 1"
    using epoch_counter [of demo "[demo_X, demo_Y]" demo_trainer demo_world ta wa] a by simp
  moreover have "epoch tb = 1"
    using epoch_counter [of demo _ demo_trainer demo_world tb wb demo_X demo_Y demo_Y] b by simp
  moreover have "epoch tc = 0"
    using epoch_counter [of demo "[demo_X, demo_Y]" demo_trainer demo_world tc wc] c by simp
  ultimately show ?thesis using a b c by blast
qed

text \<open>
  Claim C6 as stated: a completed \<open>test\<close> pass does not increment the epoch counter.
\<close>

theorem test_epoch_counterexample:
  "\<exists>t' w'. test demo [demo_X, demo_Y] (demo_trainer, demo_world) = Inr (t', w')
     \<and> epoch t' = epoch demo_trainer \<and> epoch t' \<noteq> epoch demo_trainer + 1"
proof -
  obtain t' w' where c: "test demo [demo_X, demo_Y] (demo_trainer, demo_world) = Inr (t', w')"
    using demo_test_returns [of demo_trainer demo_world] by auto
  from test_state [OF c] have "epoch t' = epoch demo_trainer" by auto
  with c show ?thesis by simp
qed

lemma length_py_range_1: "length (py_range 0 m 1) = nat m"
  using py_range_0 [of 1 m] by simp

lemma drain_batch_width:
  assumes "drain cf (Created body n arrs) = Inr bs"
  shows "\<forall>b\<in>set bs. length b = length arrs"
proof (cases arrs)
  case Nil
  with assms show ?thesis by (simp add: drain_Created)
next
  case (Cons a as)
  with assms have "bs = map (\<lambda>i. yielded cf body i n arrs) (py_range 0 (shape0 a) n)"
    by (auto simp: drain_Created split: if_splits)
  then show ?thesis by (cases body) (auto simp: Let_def)
qed

lemma map_const_replicate: "\<forall>x\<in>set xs. f x = k \<Longrightarrow> map f xs = replicate (length xs) k"
  by (induction xs) auto

text \<open>
  Claim C7. In a call of \<open>test\<close> that returns, \<open>optimizer.step\<close> is never called: the
  optimizer's state and the model's parameters are what they were before the call, although
  \<open>backward\<close> runs once per batch; gradients are zeroed first, right after the switch
  to eval mode, and zeroed again last, right before the switch back to train mode.
  (\<open>forward\<close>, \<open>loss\<close>, \<open>backward\<close> and the callbacks are typed as writing neither
  the parameters nor the optimizer's state.)
\<close>

theorem test_never_steps:
  assumes "test c args (t, w) = Inr (t', w')"
  shows "params w' = params w \<and> opt_state w' = opt_state w
     \<and> (\<exists>bs mid. drain (cast c) (chunks (batchsize t) args (cuda t)) = Inr bs
          \<and> calls w' = calls w @ [Train False, ZeroGrad] @ mid @ [ZeroGrad, Train True]
          \<and> Step \<notin> set mid
          \<and> grad_calls mid = replicate (length bs) Backward)
     \<and> (\<exists>g. grads w' = zero_grad c g)"
proof -
  from test_state [OF assms] have st: "params w' = params w" "opt_state w' = opt_state w"
    "\<exists>g. grads w' = zero_grad c g" by auto
  from test_trace [OF assms] obtain bs segs where
    d: "drain (cast c) (chunks (batchsize t) args (cuda t)) = Inr bs"
    and cs: "calls w' = calls w @ [Train False, ZeroGrad] @ concat segs @ [ZeroGrad, Train True]"
    and la: "list_all2 (\<lambda>b seg. \<exists>pl. seg =
                [Forward (butlast b), Loss (forward c False (params w) (butlast b)) [last b],
                 Backward] @ pl \<and> set pl \<subseteq> range PrintLog) bs segs"
    by blast
  note p = test_segments [OF la]
  from d cs p(3,4) have "\<exists>bs mid. drain (cast c) (chunks (batchsize t) args (cuda t)) = Inr bs
          \<and> calls w' = calls w @ [Train False, ZeroGrad] @ mid @ [ZeroGrad, Train True]
          \<and> Step \<notin> set mid
          \<and> grad_calls mid = replicate (length bs) Backward"
    by blast
  with st show ?thesis by blast
qed

theorem test_never_steps_witness:
  "\<exists>t' w' mid. test demo [demo_X, demo_Y] (demo_trainer, demo_world) = Inr (t', w')
     \<and> params w' = 1 \<and> opt_state w' = 0 \<and> grads w' = 0
     \<and> calls w' = [Train False, ZeroGrad] @ mid @ [ZeroGrad, Train True]
     \<and> Step \<notin> set mid
     \<and> grad_calls mid = [Backward, Backward, Backward, Backward]"
proof -
  obtain t' w' where c: "test demo [demo_X, demo_Y] (demo_trainer, demo_world) = Inr (t', w')"
    using demo_test_returns [of demo_trainer demo_world] by auto
  from test_never_steps [OF c] obtain bs mid g where
    p: "params w' = params demo_world" "opt_state w' = opt_state demo_world"
    and d: "drain (cast demo) (chunks (batchsize demo_trainer) [demo_X, demo_Y]
        (cuda demo_trainer)) = Inr bs"
    and m: "calls w' = calls demo_world @ [Train False, ZeroGrad] @ mid @ [ZeroGrad, Train True]"
      "Step \<notin> set mid" "grad_calls mid = replicate (length bs) Backward"
    and g: "grads w' = zero_grad demo g"
    by blast
  have "length bs = 4" using demo_test_batches d by simp
  then have "grad_calls mid = [Backward, Backward, Backward, Backward]"
    using m(3) by (simp add: numeral_eq_Suc)
  moreover have "grads w' = 0" using g by (simp add: demo_def)
  ultimately show ?thesis using c p m(1,2) by (auto simp: demo_world_def)
qed

text \<open>
  Claim C8, amended. In every batch of \<open>fit\<close> and every time step of \<open>fit_sequence\<close>,
  when the configured threshold is a number other than zero, \<open>clip_grad_norm\<close> is called
  with it after \<open>backward\<close> and before \<open>optimizer.step\<close>; when no threshold is configured
  or the threshold is zero, \<open>backward\<close> is followed by \<open>optimizer.step\<close> and no clipping
  occurs. The number of time steps of a batch is the maximum of its lengths.
\<close>

theorem clip_between_backward_and_step:
  fixes t :: "('a, ('a, 'p, 'g, 'o, 'x, 'pr) world, 'pr, 'v) trainer"
  defines "pat \<equiv> (case clip t of
                     None \<Rightarrow> [Backward, Step]
                   | Some th \<Rightarrow> if th = 0 then [Backward, Step]
                                else [Backward, ClipGradNorm th, Step])"
  shows "(fit c args (t, w) = Inr (t', w') \<longrightarrow>
            (\<exists>args' bs. shuffle c (fst (randint c 0 100000 (outside w))) args = Inr args'
               \<and> drain (cast c) (chunks (batchsize t) args' (cuda t)) = Inr bs
               \<and> grad_calls (calls w') = grad_calls (calls w) @ concat (replicate (length bs) pat)))
     \<and> (fit_sequence c inputs labels lengths (t, w) = Inr (t', w') \<longrightarrow>
            (\<exists>bs. drain (cast c) (chunk_shuffle (batchsize t) [inputs, labels, lengths]) = Inr bs
               \<and> grad_calls (calls w') = grad_calls (calls w)
                    @ concat (replicate (\<Sum>b\<leftarrow>bs. nat (max_of c (b ! 2))) pat)))"
proof -
  let ?cl = "if truthy (clip t) then [ClipGradNorm (the (clip t))] else []"
  have pat: "pat = [Backward] @ ?cl @ [Step]"
    by (auto simp: pat_def truthy_def split: option.splits)
  have cl: "grad_calls ?cl = ?cl" "forward_calls ?cl = []" "loss_calls ?cl = []"
    by simp_all
  show ?thesis
  proof (intro conjI impI)
    assume "fit c args (t, w) = Inr (t', w')"
    from fit_trace [OF this] obtain args' bs segs where
      sh: "shuffle c (fst (randint c 0 100000 (outside w))) args = Inr args'"
      and d: "drain (cast c) (chunks (batchsize t) args' (cuda t)) = Inr bs"
      and cs: "calls w' = calls w @ [Train True, Shuffle (fst (randint c 0 100000 (outside w)))]
            @ concat segs @ [Train False]"
      and la: "list_all2 (\<lambda>b seg. \<exists>ps pl. seg =
                [ZeroGrad, Forward b, Loss (forward c True ps b) b, Backward]
                @ ?cl @ [Step] @ pl \<and> set pl \<subseteq> range PrintLog) bs segs"
      by blast
    from fit_segments(2) [OF la cl]
    have "grad_calls (concat segs) = concat (replicate (length bs) pat)"
      unfolding pat .
    then have "grad_calls (calls w') = grad_calls (calls w) @ concat (replicate (length bs) pat)"
      by (simp add: cs)
    with sh d show "\<exists>args' bs. shuffle c (fst (randint c 0 100000 (outside w))) args = Inr args'
               \<and> drain (cast c) (chunks (batchsize t) args' (cuda t)) = Inr bs
               \<and> grad_calls (calls w') = grad_calls (calls w) @ concat (replicate (length bs) pat)"
      by blast
  next
    assume "fit_sequence c inputs labels lengths (t, w) = Inr (t', w')"
    from fit_sequence_trace [OF this]
    show "\<exists>bs. drain (cast c) (chunk_shuffle (batchsize t) [inputs, labels, lengths]) = Inr bs
               \<and> grad_calls (calls w') = grad_calls (calls w)
                    @ concat (replicate (\<Sum>b\<leftarrow>bs. nat (max_of c (b ! 2))) pat)"
      unfolding pat length_py_range_1 .
  qed
qed

theorem clip_between_backward_and_step_witness:
  "\<exists>t1 w1 t2 w2.
      fit demo [demo_X, demo_Y] (demo_trainer\<lparr>clip := Some (1 / 2)\<rparr>, demo_world) = Inr (t1, w1)
    \<and> grad_calls (calls w1) = concat (replicate 4 [Backward, ClipGradNorm (1 / 2), Step])
    \<and> fit_sequence demo demo_X demo_Y demo_Y (demo_trainer, demo_world) = Inr (t2, w2)
    \<and> grad_calls (calls w2) = concat (replicate 8 [Backward, Step])"
proof -
  let ?t = "demo_trainer\<lparr>clip := Some (1 / 2)\<rparr>"
  obtain t1 w1 where a: "fit demo [demo_X, demo_Y] (?t, demo_world) = Inr (t1, w1)"
    using demo_fit_returns [of ?t demo_world] by auto
  obtain t2 w2 where b: "fit_sequence demo demo_X demo_Y demo_Y (demo_trainer, demo_world)
      = Inr (t2, w2)"
    using demo_fit_sequence_returns [of demo_trainer demo_world] by auto
  from clip_between_backward_and_step [where c = demo and args = "[demo_X, demo_Y]" and t = ?t
      and w = demo_world and t' = t1 and w' = w1 and inputs = demo_X and labels = demo_Y
      and lengths = demo_Y] a
  obtain args' bs where
    sh: "shuffle demo (fst (randint demo 0 100000 (outside demo_world))) [demo_X, demo_Y]
        = Inr args'"
    and d: "drain (cast demo) (chunks (batchsize ?t) args' (cuda ?t)) = Inr bs"
    and g: "grad_calls (calls w1) = grad_calls (calls demo_world)
        @ concat (replicate (length bs) [Backward, ClipGradNorm (1 / 2), Step])"
    by auto
  have "length bs = 4" using demo_fit_batches [OF sh] d by simp
  then have A: "grad_calls (calls w1)
      = concat (replicate 4 [Backward, ClipGradNorm (1 / 2), Step])"
    using g by (simp add: demo_world_def)
  from clip_between_backward_and_step [where c = demo and args = "[demo_X, demo_Y]"
      and t = demo_trainer and w = demo_world and t' = t2 and w' = w2 and inputs = demo_X
      and labels = demo_Y and lengths = demo_Y] b
  obtain bs2 where
    d2: "drain (cast demo) (chunk_shuffle (batchsize demo_trainer) [demo_X, demo_Y, demo_Y])
        = Inr bs2"
    and g2: "grad_calls (calls w2) = grad_calls (calls demo_world)
        @ concat (replicate (\<Sum>b\<leftarrow>bs2. nat (max_of demo (b ! 2))) [Backward, Step])"
    by auto
  have "length bs2 = 4" using demo_fit_sequence_batches d2 by simp
  moreover have "(\<Sum>b\<leftarrow>bs2. nat (max_of demo (b ! 2))) = length bs2 * 2"
    by (simp add: demo_def sum_list_triv)
  ultimately have B: "grad_calls (calls w2) = concat (replicate 8 [Backward, Step])"
    using g2 by (simp add: demo_world_def)
  from a b A B show ?thesis by blast
qed

text \<open>
  Claim C8 as stated fails for a configured threshold of zero, which \<open>if self.clip:\<close>
  takes for false: with \<open>clip = 0\<close> no batch of \<open>fit\<close> calls \<open>clip_grad_norm\<close>.
\<close>

theorem zero_clip_counterexample:
  "\<exists>t' w'. fit demo [demo_X, demo_Y] (demo_trainer\<lparr>clip := Some 0\<rparr>, demo_world) = Inr (t', w')
     \<and> clip (demo_trainer\<lparr>clip := Some 0\<rparr>) = Some 0
     \<and> grad_calls (calls w') = concat (replicate 4 [Backward, Step])"
proof -
  let ?t = "demo_trainer\<lparr>clip := Some 0\<rparr>"
  obtain t' w' where a: "fit demo [demo_X, demo_Y] (?t, demo_world) = Inr (t', w')"
    using demo_fit_returns [of ?t demo_world] by auto
  have nt: "\<not> truthy (clip ?t)" by (simp add: truthy_def)
  from fit_trace [OF a] obtain args' bs segs where
    sh: "shuffle demo (fst (randint demo 0 100000 (outside demo_world))) [demo_X, demo_Y]
        = Inr args'"
    and d: "drain (cast demo) (chunks (batchsize ?t) args' (cuda ?t)) = Inr bs"
    and cs: "calls w' = calls demo_world
          @ [Train True, Shuffle (fst (randint demo 0 100000 (outside demo_world)))]
          @ concat segs @ [Train False]"
    and la: "list_all2 (\<lambda>b seg. \<exists>ps pl. seg =
                [ZeroGrad, Forward b, Loss (forward demo True ps b) b, Backward]
                @ (if truthy (clip ?t) then [ClipGradNorm (the (clip ?t))] else [])
                @ [Step] @ pl \<and> set pl \<subseteq> range PrintLog) bs segs"
    by blast
  have la': "list_all2 (\<lambda>b seg. \<exists>ps pl. seg =
                [ZeroGrad, Forward b, Loss (forward demo True ps b) b, Backward]
                @ [] @ [Step] @ pl \<and> set pl \<subseteq> range PrintLog) bs segs"
    using la unfolding if_not_P [OF nt] .
  have "grad_calls (concat segs) = concat (replicate (length bs) ([Backward] @ [] @ [Step]))"
    by (rule fit_segments(2) [OF la']) simp_all
  moreover have "length bs = 4" using demo_fit_batches [OF sh] d by simp
  ultimately have "grad_calls (calls w') = concat (replicate 4 [Backward, Step])"
    by (simp add: cs demo_world_def)
  with a show ?thesis by simp
qed

lemma demo_small_fit_returns:
  fixes t :: "(int, (int, int, int, nat, nat, int) world, int, 'v) trainer"
  assumes "batchsize t \<noteq> 0" and "print_every t \<noteq> 0" and "\<not> grad_norm t"
  shows "\<exists>t' w'. fit demo [demo_A, demo_B] (t, w) = Inr (t', w')"
proof (rule fit_returns)
  show "shuffle demo (fst (randint demo 0 100000 (outside w))) [demo_A, demo_B]
     = Inr (demo_A\<lparr>rows := rotate (nat (fst (randint demo 0 100000 (outside w)))) (rows demo_A)\<rparr>
            # [demo_B\<lparr>rows := rotate (nat (fst (randint demo 0 100000 (outside w)))) (rows demo_B)\<rparr>])"
    by (simp add: demo_def)
  show "\<forall>b\<in>set [demo_B\<lparr>rows := rotate (nat (fst (randint demo 0 100000 (outside w)))) (rows demo_B)\<rparr>].
      shape0 b = shape0 (demo_A\<lparr>rows := rotate (nat (fst (randint demo 0 100000 (outside w)))) (rows demo_A)\<rparr>)"
    by (simp add: shape0_def demo_A_def demo_B_def)
  show "batchsize t \<noteq> 0" "print_every t \<noteq> 0" by fact+
  show "\<forall>l. terms demo l \<noteq> []" by simp
  show "grad_norm t \<longrightarrow> (\<forall>p g. grad_abs_max demo p g \<noteq> [])" using assms(3) by simp
qed

lemma demo_small_batches:
  assumes "shuffle demo rs [demo_A, demo_B] = Inr args'"
    and "drain (cast demo) (chunks 2 args' False) = Inr bs"
  shows "map (map (\<lambda>v. rows (tensor v))) bs
     = [[take 2 (rotate (nat rs) [10, 20, 30]), take 2 (rotate (nat rs) [1, 2, 3])],
        [drop 2 (rotate (nat rs) [10, 20, 30]), drop 2 (rotate (nat rs) [1, 2, 3])]]"
proof -
  let ?A = "demo_A\<lparr>rows := rotate (nat rs) (rows demo_A)\<rparr>"
  let ?B = "demo_B\<lparr>rows := rotate (nat rs) (rows demo_B)\<rparr>"
  have a: "args' = [?A, ?B]" using assms(1) by (simp add: demo_def)
  have s: "shape0 ?A = 3" "shape0 ?B = 3" by (simp_all add: shape0_def demo_A_def demo_B_def)
  have r: "py_range 0 3 2 = [0, 2]" by (simp add: py_range.simps)
  have "drain (cast demo) (chunks 2 [?A, ?B] False)
      = Inr (map (\<lambda>i. yielded (cast demo) (ChunksBody False) i 2 [?A, ?B]) (py_range 0 (shape0 ?A) 2))"
    unfolding chunks_def by (rule drain_chunks_ok) (simp_all add: s)
  with assms(2) have bs: "bs = map (\<lambda>i. yielded (cast demo) (ChunksBody False) i 2 [?A, ?B]) [0, 2]"
    by (simp add: a s r)
  have l: "length (rotate (nat rs) [10, 20, 30 :: int]) = 3"
    "length (rotate (nat rs) [1, 2, 3 :: int]) = 3" by simp_all
  show ?thesis
    unfolding bs
    by (simp add: Let_def slice_arr_def py_slice_def slice_bound_def to_32_def astype_def
        Variable_def demo_A_def demo_B_def l del: length_rotate)
qed

text \<open>
  Claim C9. The permutation \<open>fit\<close> applies is the one \<open>shuffle\<close> makes from the number
  that \<open>fit\<close> has just drawn from the global random generator: the batches given to
  \<open>forward\<close> are the chunks of the arrays shuffled with that number. The Trainer's
  configured \<open>seed\<close> has no influence: a call of \<open>fit\<close> on a Trainer with any other
  configured seed fails or returns alike, with the same calls (the same shuffle and the
  same batches) and the same state but for the field \<open>seed\<close> itself.
\<close>

theorem shuffle_ignores_seed:
  "fit c args (t\<lparr>seed := s\<rparr>, w)
     = (case fit c args (t, w) of Inl e \<Rightarrow> Inl e | Inr (t', w') \<Rightarrow> Inr (t'\<lparr>seed := s\<rparr>, w'))
   \<and> (\<forall>t' w'. fit c args (t, w) = Inr (t', w') \<longrightarrow>
        (\<exists>args' bs rest.
            shuffle c (fst (randint c 0 100000 (outside w))) args = Inr args'
          \<and> drain (cast c) (chunks (batchsize t) args' (cuda t)) = Inr bs
          \<and> forward_calls (calls w') = forward_calls (calls w) @ bs
          \<and> calls w' = calls w
              @ [Train True, Shuffle (fst (randint c 0 100000 (outside w)))] @ rest))"
proof (intro conjI allI impI)
  show "fit c args (t\<lparr>seed := s\<rparr>, w)
     = (case fit c args (t, w) of Inl e \<Rightarrow> Inl e | Inr (t', w') \<Rightarrow> Inr (t'\<lparr>seed := s\<rparr>, w'))"
    by (rule fit_seed)
next
  fix t' w' assume "fit c args (t, w) = Inr (t', w')"
  from fit_trace [OF this] obtain args' bs segs where
    sh: "shuffle c (fst (randint c 0 100000 (outside w))) args = Inr args'"
    and d: "drain (cast c) (chunks (batchsize t) args' (cuda t)) = Inr bs"
    and cs: "calls w' = calls w @ [Train True, Shuffle (fst (randint c 0 100000 (outside w)))]
            @ concat segs @ [Train False]"
    and la: "list_all2 (\<lambda>b seg. \<exists>ps pl. seg =
                [ZeroGrad, Forward b, Loss (forward c True ps b) b, Backward]
                @ (if truthy (clip t) then [ClipGradNorm (the (clip t))] else [])
                @ [Step] @ pl \<and> set pl \<subseteq> range PrintLog) bs segs"
    by blast
  have cl: "grad_calls (if truthy (clip t) then [ClipGradNorm (the (clip t))] else [])
      = (if truthy (clip t) then [ClipGradNorm (the (clip t))] else [])"
    "forward_calls (if truthy (clip t) then [ClipGradNorm (the (clip t))] else []) = []"
    "loss_calls (if truthy (clip t) then [ClipGradNorm (the (clip t))] else []) = []"
    by simp_all
  from fit_segments(1) [OF la cl]
  have f: "forward_calls (calls w') = forward_calls (calls w) @ bs"
    by (simp add: cs)
  from sh d f cs
  show "\<exists>args' bs rest.
            shuffle c (fst (randint c 0 100000 (outside w))) args = Inr args'
          \<and> drain (cast c) (chunks (batchsize t) args' (cuda t)) = Inr bs
          \<and> forward_calls (calls w') = forward_calls (calls w) @ bs
          \<and> calls w' = calls w
              @ [Train True, Shuffle (fst (randint c 0 100000 (outside w)))] @ rest"
    by blast
qed

text \<open>
  Two Trainers with the same configured seed 42, run where the global generator is in
  two different states, shuffle with the seeds 0 and 1 and see the rows in two different
  orders; and the Trainer with the configured seed 1, run where the generator is in the
  first state, shuffles with the seed 0 and sees the rows as the first does.
\<close>

theorem shuffle_ignores_seed_witness:
  "\<exists>t1 w1 t2 w2.
      fit demo [demo_A, demo_B] (demo_trainer\<lparr>batchsize := 2\<rparr>, demo_world) = Inr (t1, w1)
    \<and> fit demo [demo_A, demo_B] (demo_trainer\<lparr>batchsize := 2\<rparr>, demo_world\<lparr>outside := 1\<rparr>)
        = Inr (t2, w2)
    \<and> seed (demo_trainer\<lparr>batchsize := 2\<rparr>) = 42
    \<and> take 2 (calls w1) = [Train True, Shuffle 0]
    \<and> map (map (\<lambda>v. rows (tensor v))) (forward_calls (calls w1))
        = [[[10, 20], [1, 2]], [[30], [3]]]
    \<and> take 2 (calls w2) = [Train True, Shuffle 1]
    \<and> map (map (\<lambda>v. rows (tensor v))) (forward_calls (calls w2))
        = [[[20, 30], [2, 3]], [[10], [1]]]
    \<and> fit demo [demo_A, demo_B] (demo_trainer\<lparr>batchsize := 2, seed := 1\<rparr>, demo_world)
        = Inr (t1\<lparr>seed := 1\<rparr>, w1)"
proof -
  let ?t = "demo_trainer\<lparr>batchsize := 2\<rparr>"
  let ?v = "demo_world\<lparr>outside := 1\<rparr>"
  obtain t1 w1 where a: "fit demo [demo_A, demo_B] (?t, demo_world) = Inr (t1, w1)"
    using demo_small_fit_returns [of ?t demo_world] by auto
  obtain t2 w2 where b: "fit demo [demo_A, demo_B] (?t, ?v) = Inr (t2, w2)"
    using demo_small_fit_returns [of ?t ?v] by auto
  note T1 = shuffle_ignores_seed [where c = demo and args = "[demo_A, demo_B]"
      and t = ?t and s = 1 and w = demo_world]
  note T2 = shuffle_ignores_seed [where c = demo and args = "[demo_A, demo_B]"
      and t = ?t and s = 1 and w = ?v]
  have r1: "fst (randint demo 0 100000 (outside demo_world)) = 0"
    and r2: "fst (randint demo 0 100000 (outside ?v)) = 1"
    by (simp_all add: demo_def demo_world_def)
  from T1 a obtain args1 bs1 rest1 where
    sh1: "shuffle demo 0 [demo_A, demo_B] = Inr args1"
    and d1: "drain (cast demo) (chunks (batchsize ?t) args1 (cuda ?t)) = Inr bs1"
    and f1: "forward_calls (calls w1) = forward_calls (calls demo_world) @ bs1"
    and c1: "calls w1 = calls demo_world @ [Train True, Shuffle 0] @ rest1"
    unfolding r1 by blast
  from T2 b obtain args2 bs2 rest2 where
    sh2: "shuffle demo 1 [demo_A, demo_B] = Inr args2"
    and d2: "drain (cast demo) (chunks (batchsize ?t) args2 (cuda ?t)) = Inr bs2"
    and f2: "forward_calls (calls w2) = forward_calls (calls ?v) @ bs2"
    and c2: "calls w2 = calls ?v @ [Train True, Shuffle 1] @ rest2"
    unfolding r2 by blast
  have d1': "drain (cast demo) (chunks 2 args1 False) = Inr bs1" using d1 by simp
  have d2': "drain (cast demo) (chunks 2 args2 False) = Inr bs2" using d2 by simp
  have A: "map (map (\<lambda>v. rows (tensor v))) (forward_calls (calls w1))
        = [[[10, 20], [1, 2]], [[30], [3]]]"
    using demo_small_batches [OF sh1 d1'] by (simp add: f1 demo_world_def)
  have B: "map (map (\<lambda>v. rows (tensor v))) (forward_calls (calls w2))
        = [[[20, 30], [2, 3]], [[10], [1]]]"
    using demo_small_batches [OF sh2 d2'] by (simp add: f2 demo_world_def)
  have C1: "take 2 (calls w1) = [Train True, Shuffle 0]"
    by (simp add: c1 demo_world_def)
  have C2: "take 2 (calls w2) = [Train True, Shuffle 1]"
    by (simp add: c2 demo_world_def)
  have D: "fit demo [demo_A, demo_B] (demo_trainer\<lparr>batchsize := 2, seed := 1\<rparr>, demo_world)
        = Inr (t1\<lparr>seed := 1\<rparr>, w1)"
    using T1 a by simp
  show ?thesis
    by (rule exI [of _ t1], rule exI [of _ w1], rule exI [of _ t2], rule exI [of _ w2])
       (use a b A B C1 C2 D in simp)
qed

text \<open>
  Claim C10. In every batch of \<open>fit\<close>, \<open>forward\<close> is called with the whole batch, the
  label array included, and \<open>loss\<close> with the prediction that \<open>forward\<close> returned (in
  train mode) followed by the whole batch. In every batch of \<open>test\<close>, \<open>forward\<close> is
  called with all arrays but the last, and \<open>loss\<close> with the prediction (in eval mode, on
  the unchanged parameters) and the last array alone.
\<close>

theorem forward_and_loss_arguments:
  "(fit c args (t, w) = Inr (t', w') \<longrightarrow>
      (\<exists>args' bs preds.
          shuffle c (fst (randint c 0 100000 (outside w))) args = Inr args'
        \<and> drain (cast c) (chunks (batchsize t) args' (cuda t)) = Inr bs
        \<and> forward_calls (calls w') = forward_calls (calls w) @ bs
        \<and> length preds = length bs
        \<and> loss_calls (calls w') = loss_calls (calls w) @ zip preds bs
        \<and> list_all2 (\<lambda>p b. \<exists>ps. p = forward c True ps b) preds bs))
   \<and> (test c args (t, w) = Inr (t', w') \<longrightarrow>
      (\<exists>bs. drain (cast c) (chunks (batchsize t) args (cuda t)) = Inr bs
        \<and> forward_calls (calls w') = forward_calls (calls w) @ map butlast bs
        \<and> loss_calls (calls w') = loss_calls (calls w)
            @ map (\<lambda>b. (forward c False (params w) (butlast b), [last b])) bs))"
proof (intro conjI impI)
  assume "fit c args (t, w) = Inr (t', w')"
  from fit_trace [OF this] obtain args' bs segs where
    sh: "shuffle c (fst (randint c 0 100000 (outside w))) args = Inr args'"
    and d: "drain (cast c) (chunks (batchsize t) args' (cuda t)) = Inr bs"
    and cs: "calls w' = calls w @ [Train True, Shuffle (fst (randint c 0 100000 (outside w)))]
          @ concat segs @ [Train False]"
    and la: "list_all2 (\<lambda>b seg. \<exists>ps pl. seg =
                [ZeroGrad, Forward b, Loss (forward c True ps b) b, Backward]
                @ (if truthy (clip t) then [ClipGradNorm (the (clip t))] else [])
                @ [Step] @ pl \<and> set pl \<subseteq> range PrintLog) bs segs"
    by blast
  have cl: "grad_calls (if truthy (clip t) then [ClipGradNorm (the (clip t))] else [])
      = (if truthy (clip t) then [ClipGradNorm (the (clip t))] else [])"
    "forward_calls (if truthy (clip t) then [ClipGradNorm (the (clip t))] else []) = []"
    "loss_calls (if truthy (clip t) then [ClipGradNorm (the (clip t))] else []) = []"
    by simp_all
  from fit_segments(1) [OF la cl]
  have f: "forward_calls (calls w') = forward_calls (calls w) @ bs"
    by (simp add: cs)
  from fit_segments(3) [OF la cl] obtain preds where
    p: "length preds = length bs" "loss_calls (concat segs) = zip preds bs"
      "list_all2 (\<lambda>p b. \<exists>ps. p = forward c True ps b) preds bs"
    by blast
  have l: "loss_calls (calls w') = loss_calls (calls w) @ zip preds bs"
    by (simp add: cs p(2))
  from sh d f p(1) l p(3)
  show "\<exists>args' bs preds.
          shuffle c (fst (randint c 0 100000 (outside w))) args = Inr args'
        \<and> drain (cast c) (chunks (batchsize t) args' (cuda t)) = Inr bs
        \<and> forward_calls (calls w') = forward_calls (calls w) @ bs
        \<and> length preds = length bs
        \<and> loss_calls (calls w') = loss_calls (calls w) @ zip preds bs
        \<and> list_all2 (\<lambda>p b. \<exists>ps. p = forward c True ps b) preds bs"
    by blast
next
  assume "test c args (t, w) = Inr (t', w')"
  from test_trace [OF this] obtain bs segs where
    d: "drain (cast c) (chunks (batchsize t) args (cuda t)) = Inr bs"
    and cs: "calls w' = calls w @ [Train False, ZeroGrad] @ concat segs @ [ZeroGrad, Train True]"
    and la: "list_all2 (\<lambda>b seg. \<exists>pl. seg =
                [Forward (butlast b), Loss (forward c False (params w) (butlast b)) [last b],
                 Backward] @ pl \<and> set pl \<subseteq> range PrintLog) bs segs"
    by blast
  note p = test_segments(1,2) [OF la]
  have "forward_calls (calls w') = forward_calls (calls w) @ map butlast bs"
    "loss_calls (calls w') = loss_calls (calls w)
            @ map (\<lambda>b. (forward c False (params w) (butlast b), [last b])) bs"
    by (simp_all add: cs p)
  with d show "\<exists>bs. drain (cast c) (chunks (batchsize t) args (cuda t)) = Inr bs
        \<and> forward_calls (calls w') = forward_calls (calls w) @ map butlast bs
        \<and> loss_calls (calls w') = loss_calls (calls w)
            @ map (\<lambda>b. (forward c False (params w) (butlast b), [last b])) bs"
    by blast
qed

text \<open>
  On the dataset of two arrays: each of the 4 calls of \<open>forward\<close> in \<open>fit\<close> receives
  2 arrays and each call of \<open>loss\<close> the prediction and 2 arrays; in \<open>test\<close> it is 1 array
  and the prediction and 1 array.
\<close>

theorem forward_and_loss_arguments_witness:
  "\<exists>t1 w1 t2 w2.
      fit demo [demo_X, demo_Y] (demo_trainer, demo_world) = Inr (t1, w1)
    \<and> map length (forward_calls (calls w1)) = [2, 2, 2, 2]
    \<and> map (\<lambda>(p, ys). length ys) (loss_calls (calls w1)) = [2, 2, 2, 2]
    \<and> test demo [demo_X, demo_Y] (demo_trainer, demo_world) = Inr (t2, w2)
    \<and> map length (forward_calls (calls w2)) = [1, 1, 1, 1]
    \<and> map (\<lambda>(p, ys). length ys) (loss_calls (calls w2)) = [1, 1, 1, 1]"
proof -
  obtain t1 w1 where a: "fit demo [demo_X, demo_Y] (demo_trainer, demo_world) = Inr (t1, w1)"
    using demo_fit_returns [of demo_trainer demo_world] by auto
  obtain t2 w2 where b: "test demo [demo_X, demo_Y] (demo_trainer, demo_world) = Inr (t2, w2)"
    using demo_test_returns [of demo_trainer demo_world] by auto
  from forward_and_loss_arguments [where c = demo and args = "[demo_X, demo_Y]"
      and t = demo_trainer and w = demo_world and t' = t1 and w' = w1] a
  obtain args' bs preds where
    sh: "shuffle demo (fst (randint demo 0 100000 (outside demo_world))) [demo_X, demo_Y]
        = Inr args'"
    and d: "drain (cast demo) (chunks (batchsize demo_trainer) args' (cuda demo_trainer)) = Inr bs"
    and f: "forward_calls (calls w1) = forward_calls (calls demo_world) @ bs"
    and p: "length preds = length bs"
    and l: "loss_calls (calls w1) = loss_calls (calls demo_world) @ zip preds bs"
    by blast
  have l4: "length bs = 4" using demo_fit_batches [OF sh] d by simp
  have "length args' = 2" using sh by (auto simp: demo_shuffle)
  then have wd: "\<forall>b\<in>set bs. length b = 2"
    using drain_batch_width [OF d [unfolded chunks_def]] by simp
  have m: "map length bs = [2, 2, 2, 2]"
    using map_const_replicate [OF wd] l4 by (simp add: numeral_eq_Suc)
  have A: "map length (forward_calls (calls w1)) = [2, 2, 2, 2]"
    using f m by (simp add: demo_world_def)
  have "map (\<lambda>(p, ys). length ys) (zip preds bs) = map length (map snd (zip preds bs))"
    by (simp add: case_prod_unfold comp_def)
  also have "map snd (zip preds bs) = bs" using p by simp
  finally have B: "map (\<lambda>(p, ys). length ys) (loss_calls (calls w1)) = [2, 2, 2, 2]"
    using l m by (simp add: demo_world_def)
  from forward_and_loss_arguments [where c = demo and args = "[demo_X, demo_Y]"
      and t = demo_trainer and w = demo_world and t' = t2 and w' = w2] b
  obtain bs2 where
    d2: "drain (cast demo) (chunks (batchsize demo_trainer) [demo_X, demo_Y]
        (cuda demo_trainer)) = Inr bs2"
    and f2: "forward_calls (calls w2) = forward_calls (calls demo_world) @ map butlast bs2"
    and l2: "loss_calls (calls w2) = loss_calls (calls demo_world)
        @ map (\<lambda>b. (forward demo False (params demo_world) (butlast b), [last b])) bs2"
    by blast
  have l42: "length bs2 = 4" using demo_test_batches d2 by simp
  have wd2: "\<forall>b\<in>set bs2. length b = 2"
    using drain_batch_width [OF d2 [unfolded chunks_def]] by simp
  then have "\<forall>b\<in>set bs2. length (butlast b) = 1" by simp
  from map_const_replicate [OF this]
  have "map (\<lambda>b. length (butlast b)) bs2 = [1, 1, 1, 1]"
    by (simp add: l42 numeral_eq_Suc)
  then have C: "map length (forward_calls (calls w2)) = [1, 1, 1, 1]"
    by (simp add: f2 demo_world_def comp_def)
  have D: "map (\<lambda>(p, ys). length ys) (loss_calls (calls w2)) = [1, 1, 1, 1]"
    using l2 l42 map_const_replicate [of bs2 "\<lambda>b. Suc 0" "Suc 0"]
    by (simp add: demo_world_def comp_def numeral_eq_Suc)
  show ?thesis
    by (rule exI [of _ t1], rule exI [of _ w1], rule exI [of _ t2], rule exI [of _ w2])
       (simp add: a b A B C D)
qed

end
